theory Spec2Isabelle
  imports Main "HOL-Library.Word" "HOL-Library.Sublist"
begin

unbundle bit_operations_syntax

section \<open>Python strings\<close>

text \<open>
  Strings are lists of 8-bit characters. The helpers below follow the Python string
  methods the sources call, on the ASCII range: \<open>str.upper\<close> and \<open>str.lower\<close> change the
  letters a-z / A-Z and leave every other character alone, \<open>sep.join\<close> and
  \<open>str.split(sep)\<close> work on a one-character separator as in the sources.
\<close>

definition char_upper :: "char \<Rightarrow> char" where
  "char_upper c =
     (case map_of (zip ''abcdefghijklmnopqrstuvwxyz'' ''ABCDEFGHIJKLMNOPQRSTUVWXYZ'') c of
        Some d \<Rightarrow> d
      | None \<Rightarrow> c)"

definition char_lower :: "char \<Rightarrow> char" where
  "char_lower c =
     (case map_of (zip ''ABCDEFGHIJKLMNOPQRSTUVWXYZ'' ''abcdefghijklmnopqrstuvwxyz'') c of
        Some d \<Rightarrow> d
      | None \<Rightarrow> c)"

definition upper :: "string \<Rightarrow> string" where
  "upper s = map char_upper s"

definition lower :: "string \<Rightarrow> string" where
  "lower s = map char_lower s"

text \<open>\<open>s.split(sep)\<close>: cuts at every separator, so the result is never empty and
  \<open>''.split(',')\<close> is \<open>['']\<close>.\<close>

fun split_on :: "char \<Rightarrow> string \<Rightarrow> string list" where
  "split_on sep [] = [[]]"
| "split_on sep (c # cs) =
     (if c = sep then [] # split_on sep cs
      else (case split_on sep cs of
              [] \<Rightarrow> [[c]]
            | w # ws \<Rightarrow> (c # w) # ws))"

text \<open>\<open>sep.join(xs)\<close>.\<close>

fun join :: "string \<Rightarrow> string list \<Rightarrow> string" where
  "join sep [] = []"
| "join sep [x] = x"
| "join sep (x # y # ys) = x @ sep @ join sep (y # ys)"

section \<open>The one-time-password library (pyotp, hmac, hashlib, base64)\<close>

text \<open>
  \<open>verify_mfa_token\<close> delegates to \<open>pyotp.TOTP\<close>, which is HMAC-SHA-1 over the
  time step (RFC 4226, RFC 6238) with a key that is the base32 decoding of the secret.
  Bytes are integers between 0 and 255 and 32-bit words are integers reduced modulo
  \<open>2^32\<close>, the reduction written out wherever a sum or a shift can exceed 32 bits.
\<close>

subsection \<open>SHA-1\<close>

definition m32 :: "int \<Rightarrow> int" where
  "m32 x = x mod 4294967296"

definition rotl :: "nat \<Rightarrow> int \<Rightarrow> int" where
  "rotl n w = m32 (w * 2 ^ n) + w div 2 ^ (32 - n)"

fun be32 :: "int list \<Rightarrow> int" where
  "be32 [a, b, c, d] = ((a * 256 + b) * 256 + c) * 256 + d"
| "be32 bs = 0"

fun be_words :: "int list \<Rightarrow> int list" where
  "be_words (a # b # c # d # r) = be32 [a, b, c, d] # be_words r"
| "be_words r = []"

fun zeros :: "nat \<Rightarrow> int list" where
  "zeros n = (if n = 0 then [] else 0 # zeros (n - 1))"

declare zeros.simps [simp del]

definition u32_bytes :: "int \<Rightarrow> int list" where
  "u32_bytes w = [w div 16777216 mod 256, w div 65536 mod 256, w div 256 mod 256, w mod 256]"

definition u64_bytes :: "int \<Rightarrow> int list" where
  "u64_bytes w = u32_bytes (w div 4294967296 mod 4294967296) @ u32_bytes (w mod 4294967296)"

text \<open>Padding: the byte \<open>0x80\<close>, zeros up to 56 modulo 64, the bit length in 8 bytes.\<close>

definition sha1_pad :: "int list \<Rightarrow> int list" where
  "sha1_pad m = m @ [128] @ zeros ((119 - length m mod 64) mod 64)
                 @ u64_bytes (8 * int (length m))"

text \<open>The message schedule: the argument holds the sixteen most recent words, oldest
  first; \<open>n\<close> words are still to be produced.\<close>

fun schedule :: "nat \<Rightarrow> int list \<Rightarrow> int list" where
  "schedule n (w0 # w1 # w2 # w3 # w4 # w5 # w6 # w7 # w8 # w9 # w10 # w11 # w12 # w13 # w14 # w15 # r) =
     (if n = 0 then []
      else w0 # schedule (n - 1)
             [w1, w2, w3, w4, w5, w6, w7, w8, w9, w10, w11, w12, w13, w14, w15,
              rotl 1 (w13 XOR w8 XOR w2 XOR w0)])"
| "schedule n ws = []"

declare schedule.simps [simp del]

type_synonym sha_state = "int \<times> int \<times> int \<times> int \<times> int"

text \<open>The round function and constant of round \<open>i\<close>, added together.\<close>

definition f_k :: "nat \<Rightarrow> int \<Rightarrow> int \<Rightarrow> int \<Rightarrow> int" where
  "f_k i b c d =
     (if i < 20 then ((b AND c) OR ((4294967295 - b) AND d)) + 0x5A827999
      else if i < 40 then (b XOR c XOR d) + 0x6ED9EBA1
      else if i < 60 then ((b AND c) OR (b AND d) OR (c AND d)) + 0x8F1BBCDC
      else (b XOR c XOR d) + 0xCA62C1D6)"

fun sha1_round :: "nat \<Rightarrow> int \<Rightarrow> sha_state \<Rightarrow> sha_state" where
  "sha1_round i wi (a, b, c, d, e) =
     (m32 (rotl 5 a + f_k i b c d + e + wi), a, rotl 30 b, c, d)"

fun rounds :: "nat \<Rightarrow> int list \<Rightarrow> sha_state \<Rightarrow> sha_state" where
  "rounds i [] s = s"
| "rounds i (w # ws) s = rounds (i + 1) ws (sha1_round i w s)"

fun add_state :: "sha_state \<Rightarrow> sha_state \<Rightarrow> sha_state" where
  "add_state (h0, h1, h2, h3, h4) (a, b, c, d, e) =
     (m32 (h0 + a), m32 (h1 + b), m32 (h2 + c), m32 (h3 + d), m32 (h4 + e))"

definition sha1_block :: "sha_state \<Rightarrow> int list \<Rightarrow> sha_state" where
  "sha1_block h blk = add_state h (rounds 0 (schedule 80 (be_words blk)) h)"

fun sha1_blocks :: "sha_state \<Rightarrow> int list \<Rightarrow> sha_state" where
  "sha1_blocks h [] = h"
| "sha1_blocks h (b # bs) = sha1_blocks (sha1_block h (take 64 (b # bs))) (drop 64 (b # bs))"

fun state_bytes :: "sha_state \<Rightarrow> int list" where
  "state_bytes (h0, h1, h2, h3, h4) =
     u32_bytes h0 @ u32_bytes h1 @ u32_bytes h2 @ u32_bytes h3 @ u32_bytes h4"

definition sha1_init :: sha_state where
  "sha1_init = (0x67452301, 0xEFCDAB89, 0x98BADCFE, 0x10325476, 0xC3D2E1F0)"

definition sha1 :: "int list \<Rightarrow> int list" where
  "sha1 m = state_bytes (sha1_blocks sha1_init (sha1_pad m))"

subsection \<open>HMAC\<close>

definition hmac_key_block :: "int list \<Rightarrow> int list" where
  "hmac_key_block key =
     (let k = (if 64 < length key then sha1 key else key)
      in k @ zeros (64 - length k))"

definition hmac_sha1 :: "int list \<Rightarrow> int list \<Rightarrow> int list" where
  "hmac_sha1 key msg =
     sha1 (map (\<lambda>b. b XOR 0x5C) (hmac_key_block key)
           @ sha1 (map (\<lambda>b. b XOR 0x36) (hmac_key_block key) @ msg))"

subsection \<open>base64.b32decode\<close>

definition b32_value :: "char \<Rightarrow> int option" where
  "b32_value c = map_of (zip ''ABCDEFGHIJKLMNOPQRSTUVWXYZ234567''
     [0, 1, 2, 3, 4, 5, 6, 7, 8, 9, 10, 11, 12, 13, 14, 15, 16, 17, 18, 19, 20, 21, 22, 23,
      24, 25, 26, 27, 28, 29, 30, 31]) c"

fun quantum_acc :: "int \<Rightarrow> string \<Rightarrow> int option" where
  "quantum_acc acc [] = Some acc"
| "quantum_acc acc (c # cs) =
     (case b32_value c of
        None \<Rightarrow> None
      | Some v \<Rightarrow> quantum_acc (acc * 32 + v) cs)"

definition to_bytes5 :: "int \<Rightarrow> int list" where
  "to_bytes5 acc = (acc div 4294967296 mod 256) # u32_bytes (acc mod 4294967296)"

text \<open>The loop over the quanta of eight characters: the decoded bytes and the value of
  the last quantum, or \<open>None\<close> at a character outside the alphabet.\<close>

function decode_quanta :: "string \<Rightarrow> (int list \<times> int) option" where
  "decode_quanta s =
     (if s = [] then Some ([], 0)
      else case quantum_acc 0 (take 8 s) of
             None \<Rightarrow> None
           | Some acc \<Rightarrow>
               if drop 8 s = [] then Some (to_bytes5 acc, acc)
               else (case decode_quanta (drop 8 s) of
                       None \<Rightarrow> None
                     | Some (decoded, last_acc) \<Rightarrow> Some (to_bytes5 acc @ decoded, last_acc)))"
  by pat_completeness auto

termination
  by (relation "measure length") auto

declare decode_quanta.simps [simp del]

definition rstrip_char :: "char \<Rightarrow> string \<Rightarrow> string" where
  "rstrip_char c s = rev (dropWhile (\<lambda>x. x = c) (rev s))"

definition b32decode :: "string \<Rightarrow> string + int list" where
  "b32decode s0 =
     (if length s0 mod 8 \<noteq> 0 then Inl ''Incorrect padding''
      else
        (let s = rstrip_char CHR ''='' (upper s0);
             padchars = length s0 - length s
         in case decode_quanta s of
              None \<Rightarrow> Inl ''Non-base32 digit found''
            | Some (decoded, acc) \<Rightarrow>
                if padchars \<notin> {0, 1, 3, 4, 6} then Inl ''Incorrect padding''
                else if padchars \<noteq> 0 \<and> decoded \<noteq> []
                then (let last_bytes = to_bytes5 (acc * 32 ^ padchars);
                          leftover = (43 - 5 * padchars) div 8
                      in Inr (take (length decoded - 5) decoded @ take leftover last_bytes))
                else Inr decoded))"

subsection \<open>pyotp\<close>

definition byte_secret :: "string \<Rightarrow> string + int list" where
  "byte_secret secret =
     (let missing_padding = length secret mod 8
      in b32decode (if missing_padding \<noteq> 0
                    then secret @ replicate (8 - missing_padding) CHR ''=''
                    else secret))"

fun nat_bytes :: "nat \<Rightarrow> int list" where
  "nat_bytes n = (if n = 0 then [] else nat_bytes (n div 256) @ [int (n mod 256)])"

declare nat_bytes.simps [simp del]

definition int_to_bytestring :: "int \<Rightarrow> int list" where
  "int_to_bytestring i =
     (let bs = nat_bytes (nat i) in zeros (8 - length bs) @ bs)"

definition digit_char :: "int \<Rightarrow> char" where
  "digit_char d = ''0123456789'' ! nat (d mod 10)"

definition six_digits :: "int \<Rightarrow> string" where
  "six_digits n = map (\<lambda>p. digit_char (n div p)) [100000, 10000, 1000, 100, 10, 1]"

definition truncate_code :: "int list \<Rightarrow> int" where
  "truncate_code h =
     (let offset = nat (last h AND 15)
      in (h ! offset AND 127) * 16777216 + (h ! (offset + 1) AND 255) * 65536
         + (h ! (offset + 2) AND 255) * 256 + (h ! (offset + 3) AND 255))"

definition generate_otp :: "string \<Rightarrow> int \<Rightarrow> string + string" where
  "generate_otp secret input =
     (if input < 0 then Inl ''input must be positive integer''
      else case byte_secret secret of
             Inl e \<Rightarrow> Inl e
           | Inr key \<Rightarrow>
               Inr (six_digits (truncate_code (hmac_sha1 key (int_to_bytestring input))
                                mod 1000000)))"

text \<open>\<open>TOTP.timecode\<close> for the clock reading \<open>now\<close>, in whole seconds since the epoch,
  and \<open>TOTP.at\<close>.\<close>

definition timecode :: "nat \<Rightarrow> int" where
  "timecode now = int (now div 30)"

definition totp_at :: "string \<Rightarrow> nat \<Rightarrow> int \<Rightarrow> string + string" where
  "totp_at secret for_time counter_offset = generate_otp secret (timecode for_time + counter_offset)"

text \<open>\<open>TOTP.verify(otp, valid_window=w)\<close>: the loop over the offsets \<open>-w .. w\<close>, first
  match wins; an exception of \<open>at\<close> ends the loop. The library compares the two strings
  after Unicode normalisation, which leaves a string of ASCII characters as it is.\<close>

fun verify_offsets :: "string \<Rightarrow> string \<Rightarrow> nat \<Rightarrow> int list \<Rightarrow> string + bool" where
  "verify_offsets secret otp for_time [] = Inr False"
| "verify_offsets secret otp for_time (i # is) =
     (case totp_at secret for_time i of
        Inl e \<Rightarrow> Inl e
      | Inr code \<Rightarrow>
          if otp = code then Inr True
          else verify_offsets secret otp for_time is)"

definition totp_verify :: "string \<Rightarrow> string \<Rightarrow> nat \<Rightarrow> int \<Rightarrow> string + bool" where
  "totp_verify secret otp for_time valid_window =
     (if valid_window \<noteq> 0
      then verify_offsets secret otp for_time [- valid_window ..  valid_window]
      else (case totp_at secret for_time 0 of
              Inl e \<Rightarrow> Inl e
            | Inr code \<Rightarrow> Inr (otp = code)))"

section \<open>accounts/models.py\<close>

subsection \<open>PasswordResetToken\<close>

text \<open>
  A \<open>datetime\<close> is a count of microseconds (the resolution of Python's datetime), a
  \<open>timedelta\<close> a difference of two. \<open>is_valid\<close> reads the clock through
  \<open>timezone.now()\<close>; the model takes that reading as its first argument.
\<close>

type_synonym datetime = int
type_synonym timedelta = int

definition timedelta_hours :: "int \<Rightarrow> timedelta" where
  "timedelta_hours h = h * 3600000000"

definition timedelta_minutes :: "int \<Rightarrow> timedelta" where
  "timedelta_minutes m = m * 60000000"

definition timedelta_seconds :: "int \<Rightarrow> timedelta" where
  "timedelta_seconds s = s * 1000000"

record PasswordResetToken =
  token_user :: nat
  token :: string
  created_at :: datetime
  used :: bool

definition is_valid :: "datetime \<Rightarrow> PasswordResetToken \<Rightarrow> bool" where
  "is_valid now self =
     (if used self then False
      else (let expiry_time = created_at self + timedelta_hours 24
            in now < expiry_time))"

subsection \<open>CustomUser\<close>

text \<open>
  The fields of \<open>CustomUser\<close> that the methods and views below read or write.
  A method that assigns to \<open>self\<close> returns the updated record next to its result;
  where the source calls \<open>self.save()\<close> the returned record is the row written.
\<close>

record CustomUser =
  user_id :: nat
  email :: string
  first_name :: string
  is_active :: bool
  mfa_enabled :: bool
  mfa_secret :: string
  mfa_backup_codes :: string

text \<open>\<open>secrets.token_hex(n)\<close> is \<open>token_bytes(n).hex()\<close>: two lower-case hexadecimal
  digits for each random byte. The random bytes are an argument of the model.\<close>

definition hex_digit :: "nat \<Rightarrow> char" where
  "hex_digit n = ''0123456789abcdef'' ! (n mod 16)"

definition hex_byte :: "8 word \<Rightarrow> string" where
  "hex_byte b = [hex_digit (unat b div 16), hex_digit (unat b mod 16)]"

definition token_hex :: "8 word list \<Rightarrow> string" where
  "token_hex bs = concat (map hex_byte bs)"

text \<open>\<open>generate_backup_codes\<close>: \<open>draws\<close> holds the bytes of the \<open>count\<close> calls of
  \<open>secrets.token_hex(4)\<close>, one entry of four bytes for each call.\<close>

definition generate_backup_codes :: "CustomUser \<Rightarrow> 8 word list list \<Rightarrow> CustomUser \<times> string list" where
  "generate_backup_codes self draws =
     (let codes = map (\<lambda>r. upper (token_hex r)) draws
      in (self\<lparr>mfa_backup_codes := join '','' codes\<rparr>, codes))"

definition verify_backup_code :: "CustomUser \<Rightarrow> string \<Rightarrow> CustomUser \<times> bool" where
  "verify_backup_code self code =
     (if mfa_backup_codes self = [] then (self, False)
      else (let codes = split_on CHR '','' (mfa_backup_codes self) in
            if upper code \<in> set codes
            then (self\<lparr>mfa_backup_codes := join '','' (remove1 (upper code) codes)\<rparr>, True)
            else (self, False)))"

text \<open>\<open>verify_mfa_token\<close>; \<open>now\<close> is the clock reading of \<open>datetime.now()\<close> in
  seconds. \<open>Inl\<close> is an exception of the library (a secret that is not base32).\<close>

definition verify_mfa_token :: "nat \<Rightarrow> CustomUser \<Rightarrow> string \<Rightarrow> string + bool" where
  "verify_mfa_token now self tok =
     (if mfa_secret self = [] then Inr False
      else totp_verify (mfa_secret self) tok now 1)"


text \<open>The codes an account holds, as both methods read them: none when the text field
  is empty, the comma-separated entries of the field otherwise.\<close>

definition stored_codes :: "CustomUser \<Rightarrow> string list" where
  "stored_codes self =
     (if mfa_backup_codes self = [] then []
      else split_on CHR '','' (mfa_backup_codes self))"

subsection \<open>Example accounts\<close>

definition account0 :: CustomUser where
  "account0 = \<lparr>user_id = 1, email = ''officer@example.org'', first_name = ''Officer'',
     is_active = True, mfa_enabled = True, mfa_secret = ''JBSWY3DPEHPK3PXP'', mfa_backup_codes = ''''\<rparr>"

definition account1 :: CustomUser where
  "account1 = account0\<lparr>mfa_backup_codes := ''AB12CD34,00FF00FF,DEADBEEF''\<rparr>"


section \<open>pdfapp/views.py: the converters\<close>

definition nl :: string where
  "nl = [CHR 0x0A]"

subsection \<open>More of Python's strings and paths\<close>

text \<open>\<open>str.strip()\<close> removes the characters that \<open>str.isspace\<close> accepts; among the
  first 256 code points these are 9 to 13, 28 to 32, 133 and 160.\<close>

definition py_isspace :: "char \<Rightarrow> bool" where
  "py_isspace c = (let n = (of_char c :: nat) in
     (9 \<le> n \<and> n \<le> 13) \<or> (28 \<le> n \<and> n \<le> 32) \<or> n = 133 \<or> n = 160)"

definition strip :: "string \<Rightarrow> string" where
  "strip s = rev (dropWhile py_isspace (rev (dropWhile py_isspace s)))"

text \<open>\<open>sub in s\<close> on strings.\<close>

fun contains :: "string \<Rightarrow> string \<Rightarrow> bool" where
  "contains sub [] = (sub = [])"
| "contains sub (c # cs) = (prefix sub (c # cs) \<or> contains sub cs)"

text \<open>\<open>str(n)\<close> for a natural number.\<close>

fun str_nat :: "nat \<Rightarrow> string" where
  "str_nat n = (if n < 10 then [''0123456789'' ! n]
                else str_nat (n div 10) @ [''0123456789'' ! (n mod 10)])"

declare str_nat.simps [simp del]

text \<open>\<open>os.path.basename\<close>, \<open>os.path.splitext\<close> and \<open>os.path.join\<close> of two components, on
  POSIX paths. \<open>splitext\<close> cuts at the last dot of the last component, unless only dots
  precede it there.\<close>

definition basename :: "string \<Rightarrow> string" where
  "basename p = last (split_on CHR ''/'' p)"

definition splitext :: "string \<Rightarrow> string \<times> string" where
  "splitext p =
     (let name = basename p;
          ext = CHR ''.'' # rev (takeWhile (\<lambda>c. c \<noteq> CHR ''.'') (rev name));
          root = take (length name - length ext) name
      in if CHR ''.'' \<in> set name \<and> (\<exists>c\<in>set root. c \<noteq> CHR ''.'')
         then (take (length p - length ext) p, ext)
         else (p, []))"

definition path_join :: "string \<Rightarrow> string \<Rightarrow> string" where
  "path_join a b =
     (if b \<noteq> [] \<and> hd b = CHR ''/'' then b
      else if a = [] \<or> last a = CHR ''/'' then a @ b
      else a @ ''/'' @ b)"

text \<open>The truth value of an \<open>Optional[str]\<close>: \<open>None\<close> and the empty string are false.\<close>

definition truthy :: "string option \<Rightarrow> bool" where
  "truthy x = (case x of None \<Rightarrow> False | Some s \<Rightarrow> s \<noteq> [])"

subsection \<open>convert\_docx\_to\_pdf\<close>

text \<open>
  The outcome of \<open>subprocess.run\<close> on the \<open>soffice\<close> command line with its 120 second
  limit: the process ended with a return code and what it wrote to stderr, the limit
  passed, or the call raised something else (no such program, for one).
\<close>

datatype proc_result =
    Exited int string
  | TimeoutExpired
  | RunFailed string

text \<open>\<open>generated\<close> is what \<open>os.path.exists(pdf_path)\<close> answers after the run.\<close>

definition convert_docx_to_pdf ::
  "proc_result \<Rightarrow> bool \<Rightarrow> string \<Rightarrow> string \<Rightarrow> string option \<times> string option" where
  "convert_docx_to_pdf result generated docx_path output_dir =
     (case result of
        Exited returncode stderr \<Rightarrow>
          if returncode = 0
          then (let base_name = fst (splitext (basename docx_path));
                    pdf_path = path_join output_dir (base_name @ ''.pdf'')
                in if generated then (Some pdf_path, None)
                   else (None, Some ''PDF file not generated''))
          else (None, Some stderr)
      | TimeoutExpired \<Rightarrow> (None, Some ''Conversion timed out'')
      | RunFailed e \<Rightarrow> (None, Some e))"

definition convert_pptx_to_pdf ::
  "proc_result \<Rightarrow> bool \<Rightarrow> string \<Rightarrow> string \<Rightarrow> string option \<times> string option" where
  "convert_pptx_to_pdf result generated pptx_path output_dir =
     convert_docx_to_pdf result generated pptx_path output_dir"

subsection \<open>convert\_docx\_to\_html\<close>

text \<open>
  What python-docx hands to the converter. \<open>bold\<close>, \<open>italic\<close> and \<open>underline\<close> of a run
  are tri-state (\<open>None\<close> inherits); \<open>underline\<close> stands for the truth value of the
  property. A paragraph has no style (\<open>None\<close>), or a style whose name may be missing.
  A table is its rows of cell texts.
\<close>

datatype wd_align = LEFT | CENTER | RIGHT | JUSTIFY | DISTRIBUTE | JUSTIFY_MED | JUSTIFY_HI
  | JUSTIFY_LOW | THAI_JUSTIFY

record docx_run =
  run_text :: string
  bold :: "bool option"
  italic :: "bool option"
  underline :: "bool option"

record docx_paragraph =
  para_text :: string
  para_style :: "string option option"
  para_alignment :: "wd_align option"
  para_runs :: "docx_run list"

type_synonym html_table = "string list list"

record docx_document =
  paragraphs :: "docx_paragraph list"
  tables :: "html_table list"

definition docx_css :: string where
  \<open>docx_css = join nl ([[]] @
     [''        <style>'',
      ''            body { font-family: 'Calibri', sans-serif; max-width: 800px; margin: 0 auto; padding: 20px; }'',
      ''            h1 { font-size: 24pt; margin: 20px 0; }'',
      ''            h2 { font-size: 18pt; margin: 16px 0; }'',
      ''            h3 { font-size: 14pt; margin: 12px 0; }'',
      ''            p { margin: 10px 0; line-height: 1.5; }'',
      ''            .center { text-align: center; }'',
      ''            .right { text-align: right; }'',
      ''            .justify { text-align: justify; }'',
      ''            .bold { font-weight: bold; }'',
      ''            .italic { font-style: italic; }'',
      ''            .underline { text-decoration: underline; }'',
      ''            table { border-collapse: collapse; width: 100%; margin: 10px 0; }'',
      ''            td, th { border: 1px solid #ddd; padding: 8px; }'',
      ''            ul, ol { margin: 10px 0; padding-left: 30px; }'',
      ''        </style>'']
     @ [''        ''])\<close>

definition docx_head :: "string list" where
  \<open>docx_head =
     [''<!DOCTYPE html>'',
      ''<html lang="en">'',
      ''<head>'',
      ''<meta charset="UTF-8">'',
      ''<meta name="viewport" content="width=device-width, initial-scale=1.0">'',
      ''<title>Converted Document</title>'',
      docx_css,
      ''</head>'',
      ''<body>'']\<close>

definition wrap_tag :: "bool option \<Rightarrow> string \<Rightarrow> string \<Rightarrow> string" where
  "wrap_tag flag tag text =
     (if flag = Some True then ''<'' @ tag @ ''>'' @ text @ ''</'' @ tag @ ''>'' else text)"

text \<open>One run: nothing for an empty run, the text in its wrappers otherwise.\<close>

definition run_html :: "docx_run \<Rightarrow> string" where
  "run_html run =
     (if run_text run = [] then []
      else wrap_tag (underline run) ''u''
             (wrap_tag (italic run) ''em''
                (wrap_tag (bold run) ''strong'' (run_text run))))"

text \<open>The lower-cased style name of a paragraph, or the message of the exception when
  the style has no name.\<close>

definition style_name_lower :: "docx_paragraph \<Rightarrow> string + string" where
  \<open>style_name_lower para =
     (case para_style para of
        None \<Rightarrow> Inr []
      | Some None \<Rightarrow> Inl ([CHR 0x27] @ ''NoneType'' @ [CHR 0x27] @ '' object has no attribute ''
             @ [CHR 0x27] @ ''lower'' @ [CHR 0x27])
      | Some (Some name) \<Rightarrow> Inr (lower name))\<close>

text \<open>The classes of an alignment and the attribute that carries them.\<close>

definition align_classes :: "wd_align option \<Rightarrow> string list" where
  "align_classes alignment =
     (if alignment = Some CENTER then [''center'']
      else if alignment = Some RIGHT then [''right'']
      else if alignment = Some JUSTIFY then [''justify'']
      else [])"

definition class_attr :: "string list \<Rightarrow> string" where
  \<open>class_attr classes =
     (if classes \<noteq> [] then '' class="'' @ join '' '' classes @ ''"'' else [])\<close>

text \<open>One paragraph: the line appended to \<open>html_parts\<close>, or the exception.\<close>

definition paragraph_html :: "docx_paragraph \<Rightarrow> string + string" where
  \<open>paragraph_html para =
     (if strip (para_text para) = [] then Inr ''<p>&nbsp;</p>''
      else
        (case style_name_lower para of
           Inl e \<Rightarrow> Inl e
         | Inr style_name \<Rightarrow>
             (let tag = (if contains ''heading 1'' style_name then ''h1''
                         else if contains ''heading 2'' style_name then ''h2''
                         else if contains ''heading 3'' style_name then ''h3''
                         else ''p'');
                  classes = align_classes (para_alignment para);
                  content = map run_html (para_runs para)
              in Inr (''<'' @ tag @ class_attr classes @ ''>'' @ concat content
                      @ ''</'' @ tag @ ''>''))))\<close>

fun paragraphs_html :: "docx_paragraph list \<Rightarrow> string + string list" where
  "paragraphs_html [] = Inr []"
| "paragraphs_html (para # rest) =
     (case paragraph_html para of
        Inl e \<Rightarrow> Inl e
      | Inr line \<Rightarrow>
          (case paragraphs_html rest of
             Inl e \<Rightarrow> Inl e
           | Inr lines \<Rightarrow> Inr (line # lines)))"

definition row_html :: "string list \<Rightarrow> string list" where
  "row_html cells = [''<tr>''] @ map (\<lambda>cell. ''<td>'' @ cell @ ''</td>'') cells @ [''</tr>'']"

definition table_html :: "html_table \<Rightarrow> string list" where
  "table_html table = [''<table>''] @ concat (map row_html table) @ [''</table>'']"

text \<open>\<open>convert_docx_to_html\<close>; the argument is what \<open>Document(docx_path)\<close> gives: the
  message of its exception or the document.\<close>

definition convert_docx_to_html :: "string + docx_document \<Rightarrow> string option \<times> string option" where
  "convert_docx_to_html opened =
     (case opened of
        Inl e \<Rightarrow> (None, Some e)
      | Inr doc \<Rightarrow>
          (case paragraphs_html (paragraphs doc) of
             Inl e \<Rightarrow> (None, Some e)
           | Inr lines \<Rightarrow>
               (Some (join nl (docx_head @ lines @ concat (map table_html (tables doc))
                               @ [''</body>'', ''</html>''])),
                None)))"

subsection \<open>convert\_pptx\_to\_html\<close>

text \<open>
  What python-pptx hands to the converter: a presentation is its slides, a slide its
  shapes. A shape with a text frame carries whether it is the slide's title shape and
  its paragraphs (text and indent level); a shape without one may hold a table.
\<close>

record pptx_paragraph =
  pp_text :: string
  pp_level :: int

datatype pptx_shape =
    TextShape bool "pptx_paragraph list"
  | TableShape html_table
  | OtherShape

definition pptx_css :: string where
  \<open>pptx_css = join nl ([[]] @
     [''        <style>'',
      ''            body { font-family: 'Calibri', sans-serif; max-width: 960px; margin: 0 auto; padding: 20px; background: #f5f5f5; }'',
      ''            .slide { background: white; margin: 20px 0; padding: 40px; box-shadow: 0 2px 8px rgba(0,0,0,0.1); min-height: 500px; position: relative; }'',
      ''            .slide-number { position: absolute; bottom: 10px; right: 20px; color: #999; font-size: 12px; }'',
      ''            .slide-title { font-size: 28pt; font-weight: bold; margin-bottom: 20px; color: #333; }'',
      ''            .slide-content { font-size: 14pt; line-height: 1.6; }'',
      ''            .slide-content ul { margin: 15px 0; padding-left: 30px; }'',
      ''            .slide-content li { margin: 8px 0; }'',
      ''            table { border-collapse: collapse; width: 100%; margin: 15px 0; }'',
      ''            td, th { border: 1px solid #ddd; padding: 10px; text-align: left; }'',
      ''            th { background: #f0f0f0; }'',
      ''            .center { text-align: center; }'',
      ''        </style>'']
     @ [''        ''])\<close>

definition pptx_head :: "string list" where
  \<open>pptx_head =
     [''<!DOCTYPE html>'',
      ''<html lang="en">'',
      ''<head>'',
      ''<meta charset="UTF-8">'',
      ''<meta name="viewport" content="width=device-width, initial-scale=1.0">'',
      ''<title>Converted Presentation</title>'',
      pptx_css,
      ''</head>'',
      ''<body>'']\<close>

text \<open>The paragraphs of one text frame; \<open>is_title\<close> is cleared by the first paragraph
  that is not blank.\<close>

fun text_frame_html :: "bool \<Rightarrow> pptx_paragraph list \<Rightarrow> string list" where
  "text_frame_html is_title [] = []"
| \<open>text_frame_html is_title (paragraph # rest) =
     (let text = strip (pp_text paragraph)
      in if text = [] then text_frame_html is_title rest
         else if is_title
         then (''<div class="slide-title">'' @ text @ ''</div>'') # text_frame_html False rest
         else (if 0 < pp_level paragraph
               then ''<ul><li>'' @ text @ ''</li></ul>''
               else ''<div class="slide-content">'' @ text @ ''</div>'')
              # text_frame_html is_title rest)\<close>

fun shape_html :: "pptx_shape \<Rightarrow> string list" where
  "shape_html (TextShape is_title ps) = text_frame_html is_title ps"
| "shape_html (TableShape table) = table_html table"
| "shape_html OtherShape = []"

definition slide_html :: "nat \<Rightarrow> pptx_shape list \<Rightarrow> string list" where
  \<open>slide_html slide_num slide =
     [''<div class="slide">'',
      ''<div class="slide-number">Slide '' @ str_nat slide_num @ ''</div>'']
     @ concat (map shape_html slide) @ [''</div>'']\<close>

fun slides_html :: "nat \<Rightarrow> pptx_shape list list \<Rightarrow> string list" where
  "slides_html slide_num [] = []"
| "slides_html slide_num (slide # rest) = slide_html slide_num slide @ slides_html (slide_num + 1) rest"

definition convert_pptx_to_html :: "string + pptx_shape list list \<Rightarrow> string option \<times> string option" where
  "convert_pptx_to_html opened =
     (case opened of
        Inl e \<Rightarrow> (None, Some e)
      | Inr slides \<Rightarrow>
          (Some (join nl (pptx_head @ slides_html 1 slides @ [''</body>'', ''</html>''])), None))"

subsection \<open>A heading paragraph\<close>

text \<open>A run with the text "Title" in bold, and a paragraph of style "Heading 1" with
  that text.\<close>

definition title_run :: "bool option \<Rightarrow> bool option \<Rightarrow> docx_run" where
  "title_run i u = \<lparr>run_text = ''Title'', bold = Some True, italic = i, underline = u\<rparr>"

definition title_paragraph :: "wd_align option \<Rightarrow> docx_run list \<Rightarrow> docx_paragraph" where
  "title_paragraph a rs = \<lparr>para_text = ''Title'', para_style = Some (Some ''Heading 1''),
     para_alignment = a, para_runs = rs\<rparr>"

section \<open>pdfapp: the document and its pipeline\<close>

subsection \<open>pdfapp/models.py\<close>

text \<open>
  The fields of \<open>PDFDocument\<close> that the pipeline reads or writes. A file field holds
  the name under which the storage keeps the file, or nothing. \<open>ConversionLog\<close> rows
  are kept per document, oldest first.
\<close>

record PDFDocument =
  title :: string
  source_file :: string
  pdf_file :: "string option"
  html_file :: "string option"
  html_content :: string
  status :: string
  error_message :: string
  processed_at :: "datetime option"

record ConversionLog =
  action :: string
  message :: string

definition upload_to_pdf_output :: "string \<Rightarrow> string" where
  "upload_to_pdf_output filename = ''pdf/output/'' @ filename"

definition source_extension :: "PDFDocument \<Rightarrow> string" where
  "source_extension self =
     (if source_file self \<noteq> [] then lower (drop 1 (snd (splitext (source_file self))))
      else [])"

definition is_docx :: "PDFDocument \<Rightarrow> bool" where
  "is_docx self = (source_extension self = ''docx'')"

subsection \<open>What the pipeline meets outside\<close>

text \<open>
  One run of \<open>process_document\<close> asks the file system, the converter process, the two
  parsers, the file storage and the clock. Their answers are the fields of
  \<open>pipeline_env\<close>; \<open>Inl\<close> carries the message of the exception a call raises.
  The database is the storage collaborator the pipeline relies on: \<open>document.save()\<close>
  and \<open>ConversionLog.objects.create\<close> write and return.
\<close>

record pipeline_env =
  source_file_path :: "string + string"
  make_temp_dir :: "string + string"
  soffice :: proc_result
  pdf_generated :: bool
  pdf_present :: bool
  read_pdf :: "string + string"
  storage_save :: "string \<Rightarrow> string \<Rightarrow> string + string"
  open_docx :: "string + docx_document"
  open_pptx :: "string + pptx_shape list list"
  remove_temp_dir :: "string option"
  clock :: datetime

text \<open>The state a run works on: the model instance in memory, its row in the database
  and the log rows of the document.\<close>

record pipeline_state =
  document :: PDFDocument
  row :: PDFDocument
  logs :: "ConversionLog list"

definition save :: "pipeline_state \<Rightarrow> pipeline_state" where
  "save st = st\<lparr>row := document st\<rparr>"

definition create_log :: "string \<Rightarrow> string \<Rightarrow> pipeline_state \<Rightarrow> pipeline_state" where
  "create_log a m st = st\<lparr>logs := logs st @ [\<lparr>action = a, message = m\<rparr>]\<rparr>"

subsection \<open>process\_document\<close>

text \<open>The PDF half of the \<open>with\<close> block: the converter for the kind of source, then the
  bookkeeping. The result is the exception that left it, if any, and the state at that
  point.\<close>

definition pdf_conversion ::
  "pipeline_env \<Rightarrow> PDFDocument \<Rightarrow> string \<Rightarrow> string \<Rightarrow> string option \<times> string option" where
  "pdf_conversion env doc source_path temp_dir =
     (if is_docx doc
      then convert_docx_to_pdf (soffice env) (pdf_generated env) source_path temp_dir
      else convert_pptx_to_pdf (soffice env) (pdf_generated env) source_path temp_dir)"

definition pdf_step ::
  "pipeline_env \<Rightarrow> string \<Rightarrow> string \<Rightarrow> pipeline_state \<Rightarrow> string option \<times> pipeline_state" where
  "pdf_step env source_path temp_dir st =
     (let (pdf_path, error) = pdf_conversion env (document st) source_path temp_dir
      in if truthy pdf_path \<and> pdf_present env
         then (case read_pdf env of
                 Inl e \<Rightarrow> (Some e, st)
               | Inr content \<Rightarrow>
                   (let pdf_name = fst (splitext (basename source_path)) @ ''.pdf''
                    in case storage_save env (upload_to_pdf_output pdf_name) content of
                         Inl e \<Rightarrow> (Some e, st)
                       | Inr stored \<Rightarrow>
                           (None, create_log ''pdf_success'' ''PDF conversion successful''
                                    (st\<lparr>document := (document st)\<lparr>pdf_file := Some stored\<rparr>\<rparr>))))
         else if truthy error
         then (None, create_log ''pdf_error'' (''PDF conversion failed: '' @ the error) st)
         else (None, st))"

text \<open>The HTML half: the converter for the kind of source, then the bookkeeping.\<close>

definition html_conversion :: "pipeline_env \<Rightarrow> PDFDocument \<Rightarrow> string option \<times> string option" where
  "html_conversion env doc =
     (if is_docx doc then convert_docx_to_html (open_docx env)
      else convert_pptx_to_html (open_pptx env))"

definition html_step ::
  "pipeline_env \<Rightarrow> string \<Rightarrow> pipeline_state \<Rightarrow> string option \<times> pipeline_state" where
  "html_step env source_path st =
     (let (html, error) = html_conversion env (document st)
      in if truthy html
         then (let st1 = st\<lparr>document := (document st)\<lparr>html_content := the html\<rparr>\<rparr>;
                   html_name = fst (splitext (basename source_path)) @ ''.html''
               in case storage_save env (upload_to_pdf_output html_name) (the html) of
                    Inl e \<Rightarrow> (Some e, st1)
                  | Inr stored \<Rightarrow>
                      (None, create_log ''html_success'' ''HTML conversion successful''
                               (st1\<lparr>document := (document st1)\<lparr>html_file := Some stored\<rparr>\<rparr>)))
         else if truthy error
         then (None, create_log ''html_error'' (''HTML conversion failed: '' @ the error) st)
         else (None, st))"

text \<open>The \<open>with tempfile.TemporaryDirectory()\<close> block: both halves, then the removal
  of the directory, which also runs when an exception leaves the block and whose own
  exception is the one that goes on.\<close>

definition with_temp_dir ::
  "pipeline_env \<Rightarrow> string \<Rightarrow> pipeline_state \<Rightarrow> string option \<times> pipeline_state" where
  "with_temp_dir env source_path st =
     (case make_temp_dir env of
        Inl e \<Rightarrow> (Some e, st)
      | Inr temp_dir \<Rightarrow>
          (let (raised, st2) =
                 (case pdf_step env source_path temp_dir st of
                    (Some e, st1) \<Rightarrow> (Some e, st1)
                  | (None, st1) \<Rightarrow> html_step env source_path st1)
           in case remove_temp_dir env of
                Some e \<Rightarrow> (Some e, st2)
              | None \<Rightarrow> (raised, st2)))"

text \<open>The body of \<open>try\<close>, up to \<open>return True\<close>.\<close>

definition try_body :: "pipeline_env \<Rightarrow> pipeline_state \<Rightarrow> string option \<times> pipeline_state" where
  "try_body env st =
     (case source_file_path env of
        Inl e \<Rightarrow> (Some e, st)
      | Inr source_path \<Rightarrow>
          (case with_temp_dir env source_path st of
             (Some e, st1) \<Rightarrow> (Some e, st1)
           | (None, st1) \<Rightarrow>
               (let st2 = save (st1\<lparr>document := (document st1)
                                   \<lparr>status := ''completed'', processed_at := Some (clock env)\<rparr>\<rparr>)
                in (None, create_log ''complete'' ''Document processing completed'' st2))))"

text \<open>The two statements before \<open>try\<close>: the status becomes "processing" and is saved, and
  the "start" row is written.\<close>

definition started :: "pipeline_state \<Rightarrow> pipeline_state" where
  "started st =
     create_log ''start'' ''Starting document conversion''
       (save (st\<lparr>document := (document st)\<lparr>status := ''processing''\<rparr>\<rparr>))"

definition process_document :: "pipeline_env \<Rightarrow> pipeline_state \<Rightarrow> bool \<times> pipeline_state" where
  "process_document env st =
     (case try_body env (started st) of
        (None, st3) \<Rightarrow> (True, st3)
      | (Some e, st3) \<Rightarrow>
          (let st4 = save (st3\<lparr>document := (document st3)
                              \<lparr>status := ''failed'', error_message := e\<rparr>\<rparr>)
           in (False, create_log ''error'' (''Processing failed: '' @ e) st4)))"

text \<open>\<open>reprocess_document\<close> loads the document from its row and runs the pipeline on
  it.\<close>

definition reprocess_document :: "pipeline_env \<Rightarrow> pipeline_state \<Rightarrow> pipeline_state" where
  "reprocess_document env st = snd (process_document env (st\<lparr>document := row st\<rparr>))"

text \<open>The log rows that one run on \<open>st\<close> appends.\<close>

definition run_logs :: "pipeline_env \<Rightarrow> pipeline_state \<Rightarrow> ConversionLog list" where
  "run_logs env st = drop (length (logs st)) (logs (snd (process_document env st)))"

subsection \<open>Example runs\<close>

text \<open>A freshly uploaded word-processor document, and the answers of an environment in
  which everything works: the converter writes the PDF, the parser returns a document
  with one heading, the storage keeps each file under the name asked for.\<close>

definition new_document :: PDFDocument where
  "new_document = \<lparr>title = ''Report'', source_file = ''pdf/source/report.docx'',
     pdf_file = None, html_file = None, html_content = [], status = ''pending'',
     error_message = [], processed_at = None\<rparr>"

definition uploaded :: pipeline_state where
  "uploaded = \<lparr>document = new_document, row = new_document, logs = []\<rparr>"

definition env_ok :: pipeline_env where
  "env_ok = \<lparr>source_file_path = Inr ''/srv/media/pdf/source/report.docx'',
     make_temp_dir = Inr ''/tmp/tmpk3v9x2ab'',
     soffice = Exited 0 [],
     pdf_generated = True,
     pdf_present = True,
     read_pdf = Inr ''%PDF-1.7'',
     storage_save = (\<lambda>name content. Inr name),
     open_docx = Inr \<lparr>paragraphs = [title_paragraph None [title_run None None]], tables = []\<rparr>,
     open_pptx = Inl ''Package not found'',
     remove_temp_dir = None,
     clock = 1762412700000000\<rparr>"

text \<open>The converter exits with an error message and no PDF.\<close>

definition env_pdf_fails :: pipeline_env where
  "env_pdf_fails = env_ok\<lparr>soffice := Exited 1 ''Error: source file could not be loaded'',
     pdf_generated := False, pdf_present := False\<rparr>"

text \<open>The parser rejects the file.\<close>

definition env_html_fails :: pipeline_env where
  "env_html_fails = env_ok\<lparr>open_docx := Inl ''File is not a zip file''\<rparr>"

text \<open>The converter process is killed (return code -9) and has written nothing to
  stderr.\<close>

definition env_pdf_fails_silently :: pipeline_env where
  "env_pdf_fails_silently = env_ok\<lparr>soffice := Exited (- 9) [],
     pdf_generated := False, pdf_present := False\<rparr>"

text \<open>The storage keeps the PDF and then refuses the HTML file.\<close>

definition env_disk_full :: pipeline_env where
  "env_disk_full = env_ok\<lparr>storage_save := (\<lambda>name content.
     if name = ''pdf/output/report.html'' then Inl ''[Errno 28] No space left on device''
     else Inr name)\<rparr>"

section \<open>accounts/views.py\<close>

subsection \<open>Requests, sessions and the tables\<close>

text \<open>
  A login request: the posted fields (\<open>None\<close> when the key is absent), the cleaned
  "remember me" box, the two entries of \<open>request.META\<close> that \<open>get_client_ip\<close> reads (a
  server always supplies \<open>REMOTE_ADDR\<close>), the user agent and the \<open>next\<close> parameter.
\<close>

record login_request =
  post_username :: "string option"
  post_password :: "string option"
  post_remember_me :: bool
  http_x_forwarded_for :: "string option"
  remote_addr :: string
  http_user_agent :: "string option"
  get_next :: "string option"

definition get_client_ip :: "login_request \<Rightarrow> string" where
  "get_client_ip request =
     (if truthy (http_x_forwarded_for request)
      then hd (split_on CHR '','' (the (http_x_forwarded_for request)))
      else remote_addr request)"

record LoginAttempt =
  la_email :: string
  la_ip_address :: string
  la_user_agent :: string
  la_successful :: bool

text \<open>The session keys the views use: Django's own key for the authenticated user, the
  two keys of a pending MFA login, and the expiry that \<open>set_expiry\<close> stores.\<close>

record session =
  auth_user_id :: "nat option"
  mfa_user_id :: "nat option"
  mfa_remember_me :: "bool option"
  session_expiry :: "nat option"

definition empty_session :: session where
  "empty_session = \<lparr>auth_user_id = None, mfa_user_id = None, mfa_remember_me = None,
     session_expiry = None\<rparr>"

text \<open>\<open>django.contrib.auth.login\<close>: a session that belongs to another user is flushed,
  then the user's key is stored.\<close>

definition login :: "session \<Rightarrow> CustomUser \<Rightarrow> session" where
  "login s user =
     (let s1 = (if auth_user_id s \<noteq> None \<and> auth_user_id s \<noteq> Some (user_id user)
                then empty_session else s)
      in s1\<lparr>auth_user_id := Some (user_id user)\<rparr>)"

text \<open>What the views find around them: the user table, the table of login attempts and
  the session of the request. The password hasher and the validators of the e-mail form
  field are parameters.\<close>

record app_state =
  users :: "CustomUser list"
  login_attempts :: "LoginAttempt list"
  session :: session

record auth_env =
  check_password :: "CustomUser \<Rightarrow> string \<Rightarrow> bool"
  valid_email :: "string \<Rightarrow> bool"

datatype response = Redirect string | Render string | NotFound | ServerError string

subsection \<open>CustomLoginForm\<close>

text \<open>
  Cleaning of a required text field of the form: the value is stripped, and an absent or
  empty value, or one with a null character, is an error. The user name is an
  \<open>EmailField\<close>, so its validators run on the stripped value.
\<close>

definition clean_required :: "string option \<Rightarrow> string option" where
  "clean_required posted =
     (case posted of
        None \<Rightarrow> None
      | Some raw \<Rightarrow>
          if strip raw = [] \<or> CHR 0x00 \<in> set (strip raw) then None else Some (strip raw))"

definition clean_username :: "auth_env \<Rightarrow> login_request \<Rightarrow> string option" where
  "clean_username env request =
     (case clean_required (post_username request) of
        None \<Rightarrow> None
      | Some v \<Rightarrow> if valid_email env v then Some v else None)"

text \<open>\<open>ModelBackend.authenticate\<close>: the user whose e-mail is the user name, if the
  password checks and the user is active.\<close>

definition authenticate :: "auth_env \<Rightarrow> CustomUser list \<Rightarrow> string \<Rightarrow> string \<Rightarrow> CustomUser option" where
  "authenticate env table username password =
     (case find (\<lambda>u. email u = username) table of
        None \<Rightarrow> None
      | Some user \<Rightarrow>
          if check_password env user password \<and> is_active user then Some user else None)"

text \<open>\<open>form.is_valid()\<close> and \<open>form.get_user()\<close> in one: the user when the form is valid.\<close>

definition form_user :: "auth_env \<Rightarrow> app_state \<Rightarrow> login_request \<Rightarrow> CustomUser option" where
  "form_user env st request =
     (case clean_username env request of
        None \<Rightarrow> None
      | Some username \<Rightarrow>
          (case clean_required (post_password request) of
             None \<Rightarrow> None
           | Some password \<Rightarrow> authenticate env (users st) username password))"

subsection \<open>LoginView.post\<close>

definition create_login_attempt :: "string \<Rightarrow> login_request \<Rightarrow> bool \<Rightarrow> app_state \<Rightarrow> app_state" where
  "create_login_attempt mail request ok st =
     st\<lparr>login_attempts := login_attempts st @
          [\<lparr>la_email = mail, la_ip_address = get_client_ip request,
            la_user_agent = (case http_user_agent request of None \<Rightarrow> [] | Some a \<Rightarrow> a),
            la_successful = ok\<rparr>]\<rparr>"

definition LoginView_post :: "auth_env \<Rightarrow> login_request \<Rightarrow> app_state \<Rightarrow> response \<times> app_state" where
  "LoginView_post env request st =
     (case form_user env st request of
        Some user \<Rightarrow>
          (let st1 = create_login_attempt (email user) request True st
           in if mfa_enabled user
              then (Redirect ''accounts:mfa_verify'',
                    st1\<lparr>session := (session st1)\<lparr>mfa_user_id := Some (user_id user),
                             mfa_remember_me := Some (post_remember_me request)\<rparr>\<rparr>)
              else (let s2 = login (session st1) user;
                        s3 = (if \<not> post_remember_me request then s2\<lparr>session_expiry := Some 0\<rparr>
                              else s2)
                    in (Redirect (case get_next request of
                                    None \<Rightarrow> ''accounts:dashboard''
                                  | Some next_url \<Rightarrow> next_url),
                        st1\<lparr>session := s3\<rparr>)))
      | None \<Rightarrow>
          (let mail = (case post_username request of None \<Rightarrow> [] | Some v \<Rightarrow> v)
           in (Render ''accounts/login.html'', create_login_attempt mail request False st)))"

subsection \<open>MFAVerifyView\<close>

text \<open>The posted MFA form: the token field accepts exactly six characters after
  stripping.\<close>

record mfa_request =
  post_token :: "string option"
  post_use_backup_code :: bool

definition clean_token :: "mfa_request \<Rightarrow> string option" where
  "clean_token request =
     (case clean_required (post_token request) of
        None \<Rightarrow> None
      | Some v \<Rightarrow> if length v = 6 then Some v else None)"

text \<open>\<open>post\<close> up to the verdict on the token, behind the test of \<open>dispatch\<close>: the
  response that ends the request early, or whether the token is valid together with the
  user as the check leaves it. The library's exception becomes a server error.\<close>

definition check_token :: "nat \<Rightarrow> mfa_request \<Rightarrow> app_state \<Rightarrow> response + bool \<times> CustomUser" where
  "check_token now request st =
     (case mfa_user_id (session st) of
        None \<Rightarrow> Inl (Redirect ''accounts:login'')
      | Some uid \<Rightarrow>
          (case clean_token request of
             None \<Rightarrow> Inl (Render ''accounts/mfa_verify.html'')
           | Some tok \<Rightarrow>
               (case find (\<lambda>u. user_id u = uid) (users st) of
                  None \<Rightarrow> Inl NotFound
                | Some user \<Rightarrow>
                    if post_use_backup_code request
                    then Inr (snd (verify_backup_code user tok), fst (verify_backup_code user tok))
                    else (case verify_mfa_token now user tok of
                            Inl e \<Rightarrow> Inl (ServerError e)
                          | Inr valid \<Rightarrow> Inr (valid, user)))))"

text \<open>\<open>self.save()\<close> of a user: the row with the user's key is replaced.\<close>

definition save_user :: "CustomUser \<Rightarrow> CustomUser list \<Rightarrow> CustomUser list" where
  "save_user user table = map (\<lambda>u. if user_id u = user_id user then user else u) table"

text \<open>\<open>dispatch\<close> and \<open>post\<close> together. A backup code that verifies has been consumed and
  the user saved.\<close>

definition MFAVerifyView_post :: "nat \<Rightarrow> mfa_request \<Rightarrow> app_state \<Rightarrow> response \<times> app_state" where
  "MFAVerifyView_post now request st =
     (case check_token now request st of
        Inl early \<Rightarrow> (early, st)
      | Inr (valid, user) \<Rightarrow>
          if valid
          then (let st1 = (if post_use_backup_code request
                           then st\<lparr>users := save_user user (users st)\<rparr> else st);
                    remember_me = (case mfa_remember_me (session st1) of
                                     None \<Rightarrow> False
                                   | Some b \<Rightarrow> b);
                    s1 = (session st1)\<lparr>mfa_user_id := None, mfa_remember_me := None\<rparr>;
                    s2 = login s1 user;
                    s3 = (if \<not> remember_me then s2\<lparr>session_expiry := Some 0\<rparr> else s2)
                in (Redirect ''accounts:dashboard'', st1\<lparr>session := s3\<rparr>))
          else (Render ''accounts/mfa_verify.html'', st))"

text \<open>A sequence of MFA submissions, each at its own clock reading.\<close>

fun mfa_posts :: "(nat \<times> mfa_request) list \<Rightarrow> app_state \<Rightarrow> app_state" where
  "mfa_posts [] st = st"
| "mfa_posts ((now, request) # rest) st = mfa_posts rest (snd (MFAVerifyView_post now request st))"

text \<open>Whether a submission passes the check.\<close>

definition mfa_succeeds :: "nat \<Rightarrow> mfa_request \<Rightarrow> app_state \<Rightarrow> bool" where
  "mfa_succeeds now request st =
     (case check_token now request st of
        Inl early \<Rightarrow> False
      | Inr (valid, user) \<Rightarrow> valid)"

subsection \<open>Example requests\<close>

text \<open>A second account without MFA, a table with both accounts and an anonymous
  session, a hasher that accepts one password, and a validator that asks for an at
  sign.\<close>

definition account2 :: CustomUser where
  "account2 = \<lparr>user_id = 2, email = ''clerk@example.org'', first_name = ''Clerk'',
     is_active = True, mfa_enabled = False, mfa_secret = [], mfa_backup_codes = []\<rparr>"

definition example_env :: auth_env where
  "example_env = \<lparr>check_password = (\<lambda>user password. password = ''correct horse''),
     valid_email = (\<lambda>v. CHR ''@'' \<in> set v)\<rparr>"

definition anonymous :: app_state where
  "anonymous = \<lparr>users = [account1, account2], login_attempts = [], session = empty_session\<rparr>"

text \<open>A login of the first account whose user name was posted with a leading blank, a
  login of the second account, and one with a wrong password.\<close>

definition padded_login :: login_request where
  "padded_login = \<lparr>post_username = Some '' officer@example.org'',
     post_password = Some ''correct horse'', post_remember_me = False,
     http_x_forwarded_for = None, remote_addr = ''203.0.113.7'',
     http_user_agent = Some ''Mozilla/5.0'', get_next = None\<rparr>"

definition plain_login :: login_request where
  "plain_login = padded_login\<lparr>post_username := Some ''clerk@example.org''\<rparr>"

definition wrong_password :: login_request where
  "wrong_password = plain_login\<lparr>post_password := Some ''battery staple''\<rparr>"

text \<open>Two MFA submissions: a backup code nobody holds, and the time-based code of step
  58746641.\<close>

definition wrong_code :: mfa_request where
  "wrong_code = \<lparr>post_token = Some ''ABCDEF'', post_use_backup_code = True\<rparr>"

definition right_code :: mfa_request where
  "right_code = \<lparr>post_token = Some ''398157'', post_use_backup_code = False\<rparr>"

section \<open>Reset tokens\<close>

text \<open>
  Claim C3. \<open>is_valid\<close> is true exactly when the token is not marked used and the
  clock reads strictly less than \<open>created_at\<close> plus 24 hours. So an unused token is
  valid at the instant of its creation and 23 hours 59 minutes later, it is no longer
  valid 24 hours and one second after creation, and a token marked used is valid at no
  time at all.
\<close>

theorem is_valid_iff:
  "is_valid now t = (\<not> used t \<and> now < created_at t + timedelta_hours 24)
   \<and> is_valid (created_at t) (t\<lparr>used := False\<rparr>)
   \<and> is_valid (created_at t + timedelta_hours 23 + timedelta_minutes 59) (t\<lparr>used := False\<rparr>)
   \<and> \<not> is_valid (created_at t + timedelta_hours 24 + timedelta_seconds 1) t
   \<and> \<not> is_valid now (t\<lparr>used := True\<rparr>)"
  by (simp add: is_valid_def timedelta_hours_def timedelta_minutes_def timedelta_seconds_def)

section \<open>Backup codes\<close>

subsection \<open>Splitting and joining\<close>

lemma split_on_not_Nil [simp]: "split_on sep s \<noteq> []"
  by (induction s) (auto split: list.splits)


lemma split_on_no_sep: "sep \<notin> set x \<Longrightarrow> split_on sep x = [x]"
  by (induction x) auto

lemma split_on_append_sep:
  "sep \<notin> set x \<Longrightarrow> split_on sep (x @ sep # s) = x # split_on sep s"
  by (induction x) auto

lemma split_on_join:
  "xs \<noteq> [] \<Longrightarrow> \<forall>x\<in>set xs. sep \<notin> set x \<Longrightarrow> split_on sep (join [sep] xs) = xs"
  by (induction "[sep]" xs rule: join.induct) (auto simp: split_on_no_sep split_on_append_sep)

lemma join_eq_Nil: "xs \<noteq> [] \<Longrightarrow> [] \<notin> set xs \<Longrightarrow> join sep xs \<noteq> []"
  by (induction sep xs rule: join.induct) auto


text \<open>Writing back a list of non-empty, comma-free codes and reading it again gives
  the same list.\<close>

lemma stored_codes_join:
  assumes "[] \<notin> set ys" and "\<forall>y\<in>set ys. CHR '','' \<notin> set y"
  shows "stored_codes (u\<lparr>mfa_backup_codes := join '','' ys\<rparr>) = ys"
proof (cases "ys = []")
  case True
  then show ?thesis by (simp add: stored_codes_def)
next
  case False
  from False assms(1) have "join '','' ys \<noteq> []" by (rule join_eq_Nil)
  moreover from False assms(2) have "split_on CHR '','' (join '','' ys) = ys"
    by (rule split_on_join)
  ultimately show ?thesis by (simp add: stored_codes_def)
qed







lemma hex_digit_upper_no_comma: "char_upper (hex_digit n) \<noteq> CHR '',''"
proof -
  have "n mod 16 < 16" by simp
  then have "hex_digit n \<in> set ''0123456789abcdef''"
    unfolding hex_digit_def by (intro nth_mem) simp
  then show ?thesis by (auto simp: char_upper_def)
qed

lemma hex_digit_upper_no_comma': "CHR '','' \<noteq> char_upper (hex_digit n)"
  using hex_digit_upper_no_comma [of n] by metis

lemma token_hex_upper_no_comma: "CHR '','' \<notin> set (upper (token_hex r))"
  by (auto simp: upper_def token_hex_def hex_byte_def hex_digit_upper_no_comma')

lemma token_hex_upper_not_Nil: "r \<noteq> [] \<Longrightarrow> upper (token_hex r) \<noteq> []"
  by (cases r) (auto simp: upper_def token_hex_def hex_byte_def)

lemma char_upper_idem: "char_upper (char_upper c) = char_upper c"
  by (auto simp: char_upper_def split: option.splits if_splits)

lemma upper_idem: "upper (upper s) = upper s"
  by (simp add: upper_def char_upper_idem)

lemma generate_backup_codes_stored:
  assumes "[] \<notin> set draws"
  shows "stored_codes (fst (generate_backup_codes u draws)) = snd (generate_backup_codes u draws)"
    and "[] \<notin> set (snd (generate_backup_codes u draws))"
    and "\<forall>k\<in>set (snd (generate_backup_codes u draws)). upper k = k"
proof -
  let ?codes = "map (\<lambda>r. upper (token_hex r)) draws"
  have "upper (token_hex r) \<noteq> []" if "r \<in> set draws" for r
    using that assms by (intro token_hex_upper_not_Nil) auto
  then have "[] \<notin> set ?codes" by (metis (no_types, lifting) imageE list.set_map)
  then show ne: "[] \<notin> set (snd (generate_backup_codes u draws))"
    by (simp add: generate_backup_codes_def Let_def)
  have "\<forall>y\<in>set ?codes. CHR '','' \<notin> set y"
    by (auto simp: token_hex_upper_no_comma)
  with ne show "stored_codes (fst (generate_backup_codes u draws)) = snd (generate_backup_codes u draws)"
    by (simp add: generate_backup_codes_def Let_def stored_codes_join)
  show "\<forall>k\<in>set (snd (generate_backup_codes u draws)). upper k = k"
    by (auto simp: generate_backup_codes_def Let_def upper_idem)
qed




section \<open>Time-based codes\<close>

subsection \<open>Evaluating the library on numerals\<close>

lemmas sha1_simps = sha1_def sha1_init_def sha1_block_def sha1_pad_def u64_bytes_def u32_bytes_def
  zeros.simps schedule.simps f_k_def rotl_def m32_def

lemmas otp_simps = generate_otp_def hmac_sha1_def hmac_key_block_def int_to_bytestring_def
  nat_bytes.simps truncate_code_def six_digits_def digit_char_def

lemma byte_secret_example:
  "byte_secret ''JBSWY3DPEHPK3PXP'' = Inr [72, 101, 108, 108, 111, 33, 222, 173, 190, 239]"
  by (simp add: byte_secret_def b32decode_def rstrip_char_def upper_def char_upper_def
      decode_quanta.simps b32_value_def to_bytes5_def u32_bytes_def)

text \<open>Two time steps of the secret of \<open>account0\<close> whose codes coincide:
  58746641 (the half minute from 1762399230) and 58747089.\<close>

lemma code_k: "generate_otp ''JBSWY3DPEHPK3PXP'' 58746641 = Inr ''398157''"
  by (simp add: byte_secret_example otp_simps sha1_simps)

lemma code_j: "generate_otp ''JBSWY3DPEHPK3PXP'' 58747089 = Inr ''398157''"
  by (simp add: byte_secret_example otp_simps sha1_simps)

subsection \<open>The verification window\<close>

lemma generate_otp_Inr:
  assumes "generate_otp secret k = Inr code"
  shows "0 \<le> k" and "\<exists>key. byte_secret secret = Inr key"
  using assms by (auto simp: generate_otp_def split: if_splits sum.splits)

lemma generate_otp_defined:
  assumes "byte_secret secret = Inr key" and "0 \<le> c"
  shows "\<exists>code. generate_otp secret c = Inr code"
  using assms by (simp add: generate_otp_def)

lemma window_offsets: "[- 1 .. (1::int)] = [-1, 0, 1]"
  by (simp add: upto.simps)

lemma verify_offsets_window:
  assumes "totp_at secret now (-1) = Inr c1" and "totp_at secret now 0 = Inr c2"
    and "totp_at secret now 1 = Inr c3"
  shows "verify_offsets secret otp now [-1, 0, 1] = Inr (otp = c1 \<or> otp = c2 \<or> otp = c3)"
  using assms by simp

text \<open>
  Claim C7, as the code has it. Take an account with a non-empty secret, a code that
  \<open>generate_otp\<close> returns for time step \<open>k\<close> (so the secret is base32 and \<open>k\<close> is
  not negative) and a clock reading of at least 30 seconds, so that the step before the
  current one exists. Then \<open>verify_mfa_token\<close> accepts the code at the steps \<open>k - 1\<close>,
  \<open>k\<close> and \<open>k + 1\<close>; in particular the code of the current step verifies. At any step
  it accepts the code exactly when the code equals the code of the step before, of the
  step itself or of the step after: outside the window the code is rejected unless it
  coincides with one of those three.
\<close>

theorem verify_mfa_token_window:
  assumes secret: "mfa_secret u \<noteq> []"
    and gen: "generate_otp (mfa_secret u) k = Inr code"
    and clock: "30 \<le> now"
  shows "(k - 1 \<le> timecode now \<and> timecode now \<le> k + 1 \<longrightarrow>
            verify_mfa_token now u code = Inr True)
     \<and> verify_mfa_token now u code =
         Inr (\<exists>i\<in>{- 1, 0, 1}. generate_otp (mfa_secret u) (timecode now + i) = Inr code)"
proof -
  let ?s = "mfa_secret u" and ?t = "timecode now"
  from gen obtain key where key: "byte_secret ?s = Inr key"
    using generate_otp_Inr(2) by blast
  from clock have t: "1 \<le> ?t" by (simp add: timecode_def)
  from key t obtain c1 where c1: "generate_otp ?s (?t + (- 1)) = Inr c1"
    using generate_otp_defined [of ?s key "?t + (- 1)"] by auto
  from key t obtain c2 where c2: "generate_otp ?s (?t + 0) = Inr c2"
    using generate_otp_defined [of ?s key "?t + 0"] by auto
  from key t obtain c3 where c3: "generate_otp ?s (?t + 1) = Inr c3"
    using generate_otp_defined [of ?s key "?t + 1"] by auto
  have "verify_offsets ?s code now [-1, 0, 1] = Inr (code = c1 \<or> code = c2 \<or> code = c3)"
    using c1 c2 c3 by (intro verify_offsets_window) (simp_all add: totp_at_def)
  with secret have v: "verify_mfa_token now u code = Inr (code = c1 \<or> code = c2 \<or> code = c3)"
    by (simp add: verify_mfa_token_def totp_verify_def window_offsets)
  have window: "verify_mfa_token now u code =
         Inr (\<exists>i\<in>{- 1, 0, 1}. generate_otp ?s (?t + i) = Inr code)"
    using v c1 c2 c3 by auto
  have "verify_mfa_token now u code = Inr True" if "k - 1 \<le> ?t" and "?t \<le> k + 1"
  proof -
    from that have "?t + (- 1) = k \<or> ?t + 0 = k \<or> ?t + 1 = k" by arith
    with gen c1 c2 c3 have "code = c1 \<or> code = c2 \<or> code = c3" by auto
    with v show ?thesis by simp
  qed
  with window show ?thesis by blast
qed

theorem verify_mfa_token_window_witness:
  "mfa_secret account0 \<noteq> []
   \<and> generate_otp (mfa_secret account0) 58746641 = Inr ''398157''
   \<and> (30::nat) \<le> 1762399260
   \<and> 58746641 - 1 \<le> timecode 1762399260 \<and> timecode 1762399260 \<le> 58746641 + 1
   \<and> verify_mfa_token 1762399260 account0 ''398157'' = Inr True"
proof -
  have s: "mfa_secret account0 = ''JBSWY3DPEHPK3PXP''" by (simp add: account0_def)
  have g: "generate_otp (mfa_secret account0) 58746641 = Inr ''398157''"
    by (simp only: s code_k)
  have t: "timecode 1762399260 = 58746642" by (simp add: timecode_def)
  have ne: "mfa_secret account0 \<noteq> []" by (simp add: s)
  have c: "(30::nat) \<le> 1762399260" by simp
  from verify_mfa_token_window [OF ne g c] g ne show ?thesis by (simp add: t)
qed

text \<open>
  Six-digit codes of different steps can coincide, so "rejected at any step outside the
  window" fails: the code of step 58746641 is also the code of step 58747089 and is
  accepted at clock reading 1762412700, which is step 58747090, 449 steps later.
\<close>

theorem code_accepted_outside_window:
  "generate_otp (mfa_secret account0) 58746641 = Inr ''398157''
   \<and> timecode 1762412700 = 58747090
   \<and> verify_mfa_token 1762412700 account0 ''398157'' = Inr True"
proof -
  have s: "mfa_secret account0 = ''JBSWY3DPEHPK3PXP''" by (simp add: account0_def)
  have t: "timecode 1762412700 = 58747090" by (simp add: timecode_def)
  have "totp_at ''JBSWY3DPEHPK3PXP'' 1762412700 (- 1) = Inr ''398157''"
    by (simp only: totp_at_def t) (simp add: code_j)
  then have "verify_mfa_token 1762412700 account0 ''398157'' = Inr True"
    by (simp add: verify_mfa_token_def s totp_verify_def window_offsets)
  with t show ?thesis by (simp add: s code_k)
qed

section \<open>No secret provisioned\<close>

text \<open>
  Claim C10. For an account whose \<open>mfa_secret\<close> is empty, \<open>verify_mfa_token\<close> returns
  false for every submitted token and at every clock reading, without consulting the
  library.
\<close>

theorem verify_mfa_token_no_secret:
  "verify_mfa_token now (u\<lparr>mfa_secret := ''''\<rparr>) tok = Inr False"
  by (simp add: verify_mfa_token_def)

section \<open>The HTML of a heading\<close>

lemma contains_iff: "contains sub s \<longleftrightarrow> (\<exists>ps ss. s = ps @ sub @ ss)"
proof (induction s)
  case Nil
  then show ?case by auto
next
  case (Cons c cs)
  show ?case
  proof
    assume "contains sub (c # cs)"
    then consider "prefix sub (c # cs)" | "contains sub cs" by auto
    then show "\<exists>ps ss. c # cs = ps @ sub @ ss"
    proof cases
      case 1
      then obtain ss where "c # cs = sub @ ss" by (auto simp: prefix_def)
      then have "c # cs = [] @ sub @ ss" by simp
      then show ?thesis by blast
    next
      case 2
      with Cons.IH obtain ps ss where "cs = ps @ sub @ ss" by blast
      then have "c # cs = (c # ps) @ sub @ ss" by simp
      then show ?thesis by blast
    qed
  next
    assume "\<exists>ps ss. c # cs = ps @ sub @ ss"
    then obtain ps ss where eq: "c # cs = ps @ sub @ ss" by blast
    show "contains sub (c # cs)"
    proof (cases ps)
      case Nil
      with eq have "prefix sub (c # cs)" by (simp add: prefix_def)
      then show ?thesis by simp
    next
      case (Cons p ps')
      with eq have "cs = ps' @ sub @ ss" by simp
      with Cons.IH have "contains sub cs" by blast
      then show ?thesis by simp
    qed
  qed
qed

lemma join_member: "x \<in> set xs \<Longrightarrow> \<exists>ps ss. join sep xs = ps @ x @ ss"
proof (induction sep xs rule: join.induct)
  case (1 sep)
  then show ?case by simp
next
  case (2 sep y)
  then have "join sep [y] = [] @ x @ []" by simp
  then show ?case by blast
next
  case (3 sep y z zs)
  show ?case
  proof (cases "x = y")
    case True
    then have "join sep (y # z # zs) = [] @ x @ (sep @ join sep (z # zs))" by simp
    then show ?thesis by blast
  next
    case False
    with 3 obtain ps ss where "join sep (z # zs) = ps @ x @ ss" by auto
    then have "join sep (y # z # zs) = (y @ sep @ ps) @ x @ ss" by simp
    then show ?thesis by blast
  qed
qed

lemma contains_join: "x \<in> set xs \<Longrightarrow> contains x (join sep xs)"
  by (simp add: contains_iff join_member)

lemma title_paragraph_html:
  assumes "i \<noteq> Some True" and "u \<noteq> Some True"
  shows "paragraph_html (title_paragraph a [title_run i u]) =
           Inr (''<h1'' @ class_attr (align_classes a) @ ''><strong>Title</strong></h1>'')"
  using assms
  by (simp add: paragraph_html_def title_paragraph_def title_run_def strip_def py_isspace_def
      style_name_lower_def lower_def char_lower_def run_html_def wrap_tag_def)

text \<open>
  Claim C8. A word-processor document with one paragraph of style "Heading 1" whose
  single run is the bold text "Title" (neither italic nor underlined), whatever its
  tables, converts without error, and the HTML contains the element
  \<open><h1><strong>Title</strong></h1>\<close>; when the paragraph is centred, right-aligned or
  justified the opening tag carries the class of the alignment and the content is the
  same.
\<close>

theorem heading_1_bold_title:
  assumes "i \<noteq> Some True" and "u \<noteq> Some True"
  shows "\<exists>html.
           convert_docx_to_html
             (Inr \<lparr>paragraphs = [title_paragraph a [title_run i u]], tables = ts\<rparr>)
             = (Some html, None)
           \<and> contains (''<h1'' @ class_attr (align_classes a) @ ''><strong>Title</strong></h1>'') html
           \<and> (a = None \<longrightarrow> contains ''<h1><strong>Title</strong></h1>'' html)"
proof -
  let ?line = "''<h1'' @ class_attr (align_classes a) @ ''><strong>Title</strong></h1>''"
  let ?lines = "docx_head @ [?line] @ concat (map table_html ts) @ [''</body>'', ''</html>'']"
  from assms have "paragraphs_html [title_paragraph a [title_run i u]] = Inr [?line]"
    by (simp add: title_paragraph_html)
  then have conv: "convert_docx_to_html
      (Inr \<lparr>paragraphs = [title_paragraph a [title_run i u]], tables = ts\<rparr>)
      = (Some (join nl ?lines), None)"
    by (simp add: convert_docx_to_html_def)
  have "?line \<in> set ?lines" by simp
  then have sub: "contains ?line (join nl ?lines)" by (rule contains_join)
  have "a = None \<longrightarrow> ?line = ''<h1><strong>Title</strong></h1>''"
    by (simp add: align_classes_def class_attr_def)
  with conv sub show ?thesis by auto
qed

theorem heading_1_bold_title_witness:
  "(None :: bool option) \<noteq> Some True
   \<and> convert_docx_to_html
         (Inr \<lparr>paragraphs = [title_paragraph None [title_run None None]], tables = []\<rparr>)
       = (Some (join nl (docx_head @ [''<h1><strong>Title</strong></h1>'', ''</body>'', ''</html>''])), None)
   \<and> contains ''<h1><strong>Title</strong></h1>''
         (join nl (docx_head @ [''<h1><strong>Title</strong></h1>'', ''</body>'', ''</html>'']))"
proof -
  have n: "(None :: bool option) \<noteq> Some True" by simp
  have conv: "convert_docx_to_html
         (Inr \<lparr>paragraphs = [title_paragraph None [title_run None None]], tables = []\<rparr>)
       = (Some (join nl (docx_head @ [''<h1><strong>Title</strong></h1>'', ''</body>'', ''</html>''])), None)"
    by (simp add: convert_docx_to_html_def title_paragraph_html align_classes_def class_attr_def)
  from heading_1_bold_title [OF n n, of None "[]"] conv n show ?thesis by auto
qed

section \<open>The conversion pipeline\<close>

subsection \<open>The two halves and the block around them\<close>

lemma pdf_step_cases:
  "(\<exists>e. pdf_step env sp td st = (Some e, st))
   \<or> (\<exists>stored. pdf_step env sp td st =
         (None, create_log ''pdf_success'' ''PDF conversion successful''
                  (st\<lparr>document := (document st)\<lparr>pdf_file := Some stored\<rparr>\<rparr>)))
   \<or> (\<exists>m. pdf_step env sp td st = (None, create_log ''pdf_error'' m st))
   \<or> pdf_step env sp td st = (None, st)"
  by (auto simp: pdf_step_def Let_def split: prod.splits sum.splits)

lemma html_step_cases:
  "(\<exists>e h. h \<noteq> [] \<and> fst (html_conversion env (document st)) = Some h \<and> html_step env sp st =
         (Some e, st\<lparr>document := (document st)\<lparr>html_content := h\<rparr>\<rparr>))
   \<or> (\<exists>h stored. h \<noteq> [] \<and> fst (html_conversion env (document st)) = Some h \<and> html_step env sp st =
         (None, create_log ''html_success'' ''HTML conversion successful''
                  (st\<lparr>document := (document st)\<lparr>html_content := h, html_file := Some stored\<rparr>\<rparr>)))
   \<or> (\<exists>m. html_step env sp st = (None, create_log ''html_error'' m st))
   \<or> html_step env sp st = (None, st)"
proof -
  obtain html error where conv: "html_conversion env (document st) = (html, error)"
    by (meson surj_pair)
  show ?thesis
  proof (cases "truthy html")
    case True
    then obtain h where h: "html = Some h" "h \<noteq> []"
      by (auto simp: truthy_def split: option.splits)
    from conv h have fst: "fst (html_conversion env (document st)) = Some h" by simp
    let ?name = "upload_to_pdf_output (fst (splitext (basename sp)) @ ''.html'')"
    show ?thesis
    proof (cases "storage_save env ?name h")
      case (Inl e)
      with conv True h have "html_step env sp st =
          (Some e, st\<lparr>document := (document st)\<lparr>html_content := h\<rparr>\<rparr>)"
        by (simp add: html_step_def Let_def)
      with h(2) fst show ?thesis by blast
    next
      case (Inr stored)
      with conv True h have "html_step env sp st =
          (None, create_log ''html_success'' ''HTML conversion successful''
                  (st\<lparr>document := (document st)\<lparr>html_content := h, html_file := Some stored\<rparr>\<rparr>))"
        by (simp add: html_step_def Let_def)
      with h(2) fst show ?thesis by blast
    qed
  next
    case False
    show ?thesis
    proof (cases "truthy error")
      case True
      with conv False have "html_step env sp st =
          (None, create_log ''html_error'' (''HTML conversion failed: '' @ the error) st)"
        by (simp add: html_step_def Let_def)
      then show ?thesis by blast
    next
      case nerr: False
      with conv False have "html_step env sp st = (None, st)"
        by (simp add: html_step_def Let_def)
      then show ?thesis by blast
    qed
  qed
qed

lemma process_document_status:
  "status (document (snd (process_document env st))) =
     (if fst (try_body env (started st)) = None then ''completed'' else ''failed'')"
  by (auto simp: process_document_def try_body_def save_def create_log_def Let_def
      split: prod.splits sum.splits option.splits)

lemma process_document_saved:
  "row (snd (process_document env st)) = document (snd (process_document env st))"
  by (auto simp: process_document_def try_body_def save_def create_log_def Let_def
      split: prod.splits sum.splits option.splits)

lemma process_document_returns:
  "fst (process_document env st) = (fst (try_body env (started st)) = None)"
  by (auto simp: process_document_def split: prod.splits option.splits)

lemma pdf_step_returns:
  assumes "\<exists>c. read_pdf env = Inr c" and "\<forall>n c. \<exists>s. storage_save env n c = Inr s"
  shows "fst (pdf_step env sp td st) = None"
proof -
  from assms(1) obtain c where c: "read_pdf env = Inr c" by blast
  obtain s where "storage_save env (upload_to_pdf_output (fst (splitext (basename sp)) @ ''.pdf'')) c = Inr s"
    using assms(2) by blast
  with c show ?thesis
    by (auto simp: pdf_step_def Let_def split: prod.splits)
qed

lemma html_step_returns:
  assumes "\<forall>n c. \<exists>s. storage_save env n c = Inr s"
  shows "fst (html_step env sp st) = None"
proof -
  have "\<exists>s. storage_save env n c = Inr s" for n c using assms by blast
  then have "storage_save env n c \<noteq> Inl e" for n c e by (metis sum.distinct(1))
  then show ?thesis
    by (auto simp: html_step_def Let_def split: prod.splits sum.splits)
qed

lemma try_body_returns:
  assumes "\<exists>p. source_file_path env = Inr p" and "\<exists>d. make_temp_dir env = Inr d"
    and "\<exists>c. read_pdf env = Inr c" and "\<forall>n c. \<exists>s. storage_save env n c = Inr s"
    and "remove_temp_dir env = None"
  shows "fst (try_body env st) = None"
proof -
  from assms(1) obtain p where p: "source_file_path env = Inr p" by blast
  from assms(2) obtain d where d: "make_temp_dir env = Inr d" by blast
  have pdf: "fst (pdf_step env p d st) = None"
    using assms(3,4) by (rule pdf_step_returns)
  have html: "fst (html_step env p st') = None" for st'
    using assms(4) by (rule html_step_returns)
  have "fst (with_temp_dir env p st) = None"
    using pdf html [of "snd (pdf_step env p d st)"] assms(5) d
    by (auto simp: with_temp_dir_def Let_def split: prod.splits option.splits)
  with p show ?thesis
    by (auto simp: try_body_def Let_def split: prod.splits option.splits)
qed

lemma html_conversion_pdf_file [simp]:
  "html_conversion env (doc\<lparr>pdf_file := x\<rparr>) = html_conversion env doc"
  by (simp add: html_conversion_def is_docx_def source_extension_def)

lemma with_temp_dir_shape:
  "\<exists>pf plog hc hf hlog.
      row (snd (with_temp_dir env sp st)) = row st
    \<and> document (snd (with_temp_dir env sp st)) =
          (document st)\<lparr>pdf_file := pf, html_content := hc, html_file := hf\<rparr>
    \<and> logs (snd (with_temp_dir env sp st)) = logs st @ plog @ hlog
    \<and> ((pf = pdf_file (document st) \<and> plog = [])
         \<or> (\<exists>s. pf = Some s \<and> plog = [\<lparr>action = ''pdf_success'', message = ''PDF conversion successful''\<rparr>])
         \<or> (\<exists>m. pf = pdf_file (document st) \<and> plog = [\<lparr>action = ''pdf_error'', message = m\<rparr>]))
    \<and> ((hc = html_content (document st) \<and> hf = html_file (document st) \<and> hlog = [])
         \<or> (hc \<noteq> [] \<and> fst (html_conversion env (document st)) = Some hc
              \<and> hf = html_file (document st) \<and> hlog = [])
         \<or> (\<exists>s. hc \<noteq> [] \<and> fst (html_conversion env (document st)) = Some hc \<and> hf = Some s
              \<and> hlog = [\<lparr>action = ''html_success'', message = ''HTML conversion successful''\<rparr>])
         \<or> (\<exists>m. hc = html_content (document st) \<and> hf = html_file (document st)
              \<and> hlog = [\<lparr>action = ''html_error'', message = m\<rparr>]))"
proof (cases "make_temp_dir env")
  case (Inl e)
  then have "snd (with_temp_dir env sp st) = st" by (simp add: with_temp_dir_def)
  then show ?thesis
    by (intro exI [of _ "pdf_file (document st)"] exI [of _ "[]"]
        exI [of _ "html_content (document st)"] exI [of _ "html_file (document st)"]) simp
next
  case (Inr td)
  let ?old = "document st"
  let ?P = "\<lambda>st' pf plog hc hf hlog.
      row st' = row st
    \<and> document st' = ?old\<lparr>pdf_file := pf, html_content := hc, html_file := hf\<rparr>
    \<and> logs st' = logs st @ plog @ hlog"
  have pdf: "\<exists>pf plog st1.
      (pdf_step env sp td st = (None, st1) \<or> (\<exists>e. pdf_step env sp td st = (Some e, st1) \<and> st1 = st))
    \<and> row st1 = row st \<and> document st1 = ?old\<lparr>pdf_file := pf\<rparr> \<and> logs st1 = logs st @ plog
    \<and> ((pf = pdf_file ?old \<and> plog = [])
         \<or> (\<exists>s. pf = Some s \<and> plog = [\<lparr>action = ''pdf_success'', message = ''PDF conversion successful''\<rparr>])
         \<or> (\<exists>m. pf = pdf_file ?old \<and> plog = [\<lparr>action = ''pdf_error'', message = m\<rparr>]))"
    using pdf_step_cases [of env sp td st]
  proof (elim disjE exE)
    fix e assume "pdf_step env sp td st = (Some e, st)"
    then show ?thesis
      by (intro exI [of _ "pdf_file ?old"] exI [of _ "[]"] exI [of _ st]) simp
  next
    fix stored
    assume "pdf_step env sp td st =
      (None, create_log ''pdf_success'' ''PDF conversion successful''
               (st\<lparr>document := ?old\<lparr>pdf_file := Some stored\<rparr>\<rparr>))"
    then show ?thesis
      by (intro exI [of _ "Some stored"]
          exI [of _ "[\<lparr>action = ''pdf_success'', message = ''PDF conversion successful''\<rparr>]"]
          exI [of _ "create_log ''pdf_success'' ''PDF conversion successful''
               (st\<lparr>document := ?old\<lparr>pdf_file := Some stored\<rparr>\<rparr>)"])
        (simp add: create_log_def)
  next
    fix m assume "pdf_step env sp td st = (None, create_log ''pdf_error'' m st)"
    then show ?thesis
      by (intro exI [of _ "pdf_file ?old"] exI [of _ "[\<lparr>action = ''pdf_error'', message = m\<rparr>]"]
          exI [of _ "create_log ''pdf_error'' m st"])
        (simp add: create_log_def)
  next
    assume "pdf_step env sp td st = (None, st)"
    then show ?thesis
      by (intro exI [of _ "pdf_file ?old"] exI [of _ "[]"] exI [of _ st]) simp
  qed
  then obtain pf plog st1 where
    step: "pdf_step env sp td st = (None, st1) \<or> (\<exists>e. pdf_step env sp td st = (Some e, st1) \<and> st1 = st)"
    and st1: "row st1 = row st" "document st1 = ?old\<lparr>pdf_file := pf\<rparr>" "logs st1 = logs st @ plog"
    and pcase: "(pf = pdf_file ?old \<and> plog = [])
         \<or> (\<exists>s. pf = Some s \<and> plog = [\<lparr>action = ''pdf_success'', message = ''PDF conversion successful''\<rparr>])
         \<or> (\<exists>m. pf = pdf_file ?old \<and> plog = [\<lparr>action = ''pdf_error'', message = m\<rparr>])"
    by blast
  have conv1: "html_conversion env (document st1) = html_conversion env ?old"
    by (simp add: st1(2))
  have html: "\<exists>hc hf hlog st2.
      snd (with_temp_dir env sp st) = st2
    \<and> row st2 = row st1
    \<and> document st2 = (document st1)\<lparr>html_content := hc, html_file := hf\<rparr>
    \<and> logs st2 = logs st1 @ hlog
    \<and> ((hc = html_content ?old \<and> hf = html_file ?old \<and> hlog = [])
         \<or> (hc \<noteq> [] \<and> fst (html_conversion env ?old) = Some hc
              \<and> hf = html_file ?old \<and> hlog = [])
         \<or> (\<exists>s. hc \<noteq> [] \<and> fst (html_conversion env ?old) = Some hc \<and> hf = Some s
              \<and> hlog = [\<lparr>action = ''html_success'', message = ''HTML conversion successful''\<rparr>])
         \<or> (\<exists>m. hc = html_content ?old \<and> hf = html_file ?old
              \<and> hlog = [\<lparr>action = ''html_error'', message = m\<rparr>]))"
    using step
  proof (elim disjE exE conjE)
    fix e assume "pdf_step env sp td st = (Some e, st1)" and "st1 = st"
    with Inr have "snd (with_temp_dir env sp st) = st1"
      by (simp add: with_temp_dir_def split: option.splits)
    then show ?thesis
      by (intro exI [of _ "html_content ?old"] exI [of _ "html_file ?old"] exI [of _ "[]"]
          exI [of _ st1]) (simp add: st1)
  next
    assume ok: "pdf_step env sp td st = (None, st1)"
    with Inr have w: "snd (with_temp_dir env sp st) = snd (html_step env sp st1)"
      by (simp add: with_temp_dir_def split: option.splits prod.splits)
    from html_step_cases [of env st1 sp] show ?thesis
    proof (elim disjE exE conjE)
      fix e h
      assume "h \<noteq> []" "fst (html_conversion env (document st1)) = Some h"
        "html_step env sp st1 = (Some e, st1\<lparr>document := (document st1)\<lparr>html_content := h\<rparr>\<rparr>)"
      then show ?thesis unfolding w conv1
        by (intro exI [of _ h] exI [of _ "html_file ?old"] exI [of _ "[]"]
            exI [of _ "st1\<lparr>document := (document st1)\<lparr>html_content := h\<rparr>\<rparr>"])
          (simp add: st1)
    next
      fix h stored
      assume "h \<noteq> []" "fst (html_conversion env (document st1)) = Some h"
        "html_step env sp st1 =
          (None, create_log ''html_success'' ''HTML conversion successful''
             (st1\<lparr>document := (document st1)\<lparr>html_content := h, html_file := Some stored\<rparr>\<rparr>))"
      then show ?thesis unfolding w conv1
        by (intro exI [of _ h] exI [of _ "Some stored"]
            exI [of _ "[\<lparr>action = ''html_success'', message = ''HTML conversion successful''\<rparr>]"]
            exI [of _ "create_log ''html_success'' ''HTML conversion successful''
             (st1\<lparr>document := (document st1)\<lparr>html_content := h, html_file := Some stored\<rparr>\<rparr>)"])
          (simp add: st1 create_log_def)
    next
      fix m
      assume "html_step env sp st1 = (None, create_log ''html_error'' m st1)"
      then show ?thesis unfolding w
        by (intro exI [of _ "html_content ?old"] exI [of _ "html_file ?old"]
            exI [of _ "[\<lparr>action = ''html_error'', message = m\<rparr>]"]
            exI [of _ "create_log ''html_error'' m st1"])
          (simp add: st1 create_log_def)
    next
      assume "html_step env sp st1 = (None, st1)"
      then show ?thesis unfolding w
        by (intro exI [of _ "html_content ?old"] exI [of _ "html_file ?old"] exI [of _ "[]"]
            exI [of _ st1]) (simp add: st1)
    qed
  qed
  then obtain hc hf hlog st2 where
    st2: "snd (with_temp_dir env sp st) = st2" "row st2 = row st1"
      "document st2 = (document st1)\<lparr>html_content := hc, html_file := hf\<rparr>"
      "logs st2 = logs st1 @ hlog"
    and hcase: "(hc = html_content ?old \<and> hf = html_file ?old \<and> hlog = [])
         \<or> (hc \<noteq> [] \<and> fst (html_conversion env ?old) = Some hc
              \<and> hf = html_file ?old \<and> hlog = [])
         \<or> (\<exists>s. hc \<noteq> [] \<and> fst (html_conversion env ?old) = Some hc \<and> hf = Some s
              \<and> hlog = [\<lparr>action = ''html_success'', message = ''HTML conversion successful''\<rparr>])
         \<or> (\<exists>m. hc = html_content ?old \<and> hf = html_file ?old
              \<and> hlog = [\<lparr>action = ''html_error'', message = m\<rparr>])"
    by blast
  have "?P (snd (with_temp_dir env sp st)) pf plog hc hf hlog"
    by (simp add: st2 st1)
  with pcase hcase show ?thesis by blast
qed

lemma html_conversion_status [simp]:
  "html_conversion env (doc\<lparr>status := x\<rparr>) = html_conversion env doc"
  by (simp add: html_conversion_def is_docx_def source_extension_def)

text \<open>The same for a whole run: the artifact fields and the rows appended, the "start"
  row first and one terminal row last.\<close>

lemma process_document_shape:
  "\<exists>pf plog hc hf hlog t.
      pdf_file (document (snd (process_document env st))) = pf
    \<and> html_content (document (snd (process_document env st))) = hc
    \<and> html_file (document (snd (process_document env st))) = hf
    \<and> logs (snd (process_document env st)) =
          logs st @ [\<lparr>action = ''start'', message = ''Starting document conversion''\<rparr>]
            @ plog @ hlog @ [t]
    \<and> ((pf = pdf_file (document st) \<and> plog = [])
         \<or> (\<exists>s. pf = Some s \<and> plog = [\<lparr>action = ''pdf_success'', message = ''PDF conversion successful''\<rparr>])
         \<or> (\<exists>m. pf = pdf_file (document st) \<and> plog = [\<lparr>action = ''pdf_error'', message = m\<rparr>]))
    \<and> ((hc = html_content (document st) \<and> hf = html_file (document st) \<and> hlog = [])
         \<or> (hc \<noteq> [] \<and> fst (html_conversion env (document st)) = Some hc
              \<and> hf = html_file (document st) \<and> hlog = [])
         \<or> (\<exists>s. hc \<noteq> [] \<and> fst (html_conversion env (document st)) = Some hc \<and> hf = Some s
              \<and> hlog = [\<lparr>action = ''html_success'', message = ''HTML conversion successful''\<rparr>])
         \<or> (\<exists>m. hc = html_content (document st) \<and> hf = html_file (document st)
              \<and> hlog = [\<lparr>action = ''html_error'', message = m\<rparr>]))
    \<and> ((status (document (snd (process_document env st))) = ''completed''
          \<and> error_message (document (snd (process_document env st))) = error_message (document st)
          \<and> t = \<lparr>action = ''complete'', message = ''Document processing completed''\<rparr>)
         \<or> (status (document (snd (process_document env st))) = ''failed''
          \<and> t = \<lparr>action = ''error'', message = ''Processing failed: ''
                     @ error_message (document (snd (process_document env st)))\<rparr>))"
proof (cases "source_file_path env")
  case (Inl e)
  then have "process_document env st =
      (False, create_log ''error'' (''Processing failed: '' @ e)
         (save ((started st)\<lparr>document := (document (started st))
                  \<lparr>status := ''failed'', error_message := e\<rparr>\<rparr>)))"
    by (simp add: process_document_def try_body_def Let_def)
  then show ?thesis
    by (intro exI [of _ "pdf_file (document st)"] exI [of _ "[]"]
        exI [of _ "html_content (document st)"] exI [of _ "html_file (document st)"]
        exI [of _ "\<lparr>action = ''error'', message = ''Processing failed: '' @ e\<rparr>"])
      (simp add: create_log_def save_def started_def)
next
  case (Inr sp)
  let ?s = "started st"
  obtain r s1 where ws: "with_temp_dir env sp ?s = (r, s1)" by (meson surj_pair)
  then have s1: "snd (with_temp_dir env sp ?s) = s1" by simp
  from with_temp_dir_shape [of env sp ?s] obtain pf plog hc hf hlog where
    w: "document s1 = (document ?s)\<lparr>pdf_file := pf, html_content := hc, html_file := hf\<rparr>"
       "logs s1 = logs ?s @ plog @ hlog"
    and pcase: "(pf = pdf_file (document ?s) \<and> plog = [])
         \<or> (\<exists>s. pf = Some s \<and> plog = [\<lparr>action = ''pdf_success'', message = ''PDF conversion successful''\<rparr>])
         \<or> (\<exists>m. pf = pdf_file (document ?s) \<and> plog = [\<lparr>action = ''pdf_error'', message = m\<rparr>])"
    and hcase: "(hc = html_content (document ?s) \<and> hf = html_file (document ?s) \<and> hlog = [])
         \<or> (hc \<noteq> [] \<and> fst (html_conversion env (document ?s)) = Some hc
              \<and> hf = html_file (document ?s) \<and> hlog = [])
         \<or> (\<exists>s. hc \<noteq> [] \<and> fst (html_conversion env (document ?s)) = Some hc \<and> hf = Some s
              \<and> hlog = [\<lparr>action = ''html_success'', message = ''HTML conversion successful''\<rparr>])
         \<or> (\<exists>m. hc = html_content (document ?s) \<and> hf = html_file (document ?s)
              \<and> hlog = [\<lparr>action = ''html_error'', message = m\<rparr>])"
    unfolding s1 by blast
  have s: "document ?s = (document st)\<lparr>status := ''processing''\<rparr>"
    "logs ?s = logs st @ [\<lparr>action = ''start'', message = ''Starting document conversion''\<rparr>]"
    by (simp_all add: started_def create_log_def save_def)
  from pcase have pcase': "(pf = pdf_file (document st) \<and> plog = [])
         \<or> (\<exists>s. pf = Some s \<and> plog = [\<lparr>action = ''pdf_success'', message = ''PDF conversion successful''\<rparr>])
         \<or> (\<exists>m. pf = pdf_file (document st) \<and> plog = [\<lparr>action = ''pdf_error'', message = m\<rparr>])"
    by (simp add: s)
  from hcase have hcase': "(hc = html_content (document st) \<and> hf = html_file (document st) \<and> hlog = [])
         \<or> (hc \<noteq> [] \<and> fst (html_conversion env (document st)) = Some hc
              \<and> hf = html_file (document st) \<and> hlog = [])
         \<or> (\<exists>s. hc \<noteq> [] \<and> fst (html_conversion env (document st)) = Some hc \<and> hf = Some s
              \<and> hlog = [\<lparr>action = ''html_success'', message = ''HTML conversion successful''\<rparr>])
         \<or> (\<exists>m. hc = html_content (document st) \<and> hf = html_file (document st)
              \<and> hlog = [\<lparr>action = ''html_error'', message = m\<rparr>])"
    by (simp add: s)
  show ?thesis
  proof (cases r)
    case None
    with Inr ws have "snd (process_document env st) =
        create_log ''complete'' ''Document processing completed''
          (save (s1\<lparr>document := (document s1)
                   \<lparr>status := ''completed'', processed_at := Some (clock env)\<rparr>\<rparr>))"
      by (simp add: process_document_def try_body_def Let_def)
    then have "pdf_file (document (snd (process_document env st))) = pf
      \<and> html_content (document (snd (process_document env st))) = hc
      \<and> html_file (document (snd (process_document env st))) = hf
      \<and> logs (snd (process_document env st)) =
          logs st @ [\<lparr>action = ''start'', message = ''Starting document conversion''\<rparr>]
            @ plog @ hlog @ [\<lparr>action = ''complete'', message = ''Document processing completed''\<rparr>]
      \<and> status (document (snd (process_document env st))) = ''completed''
      \<and> error_message (document (snd (process_document env st))) = error_message (document st)"
      by (simp add: create_log_def save_def w s)
    with pcase' hcase' show ?thesis by blast
  next
    case (Some e)
    with Inr ws have "snd (process_document env st) =
        create_log ''error'' (''Processing failed: '' @ e)
          (save (s1\<lparr>document := (document s1)
                   \<lparr>status := ''failed'', error_message := e\<rparr>\<rparr>))"
      by (simp add: process_document_def try_body_def Let_def)
    then have "pdf_file (document (snd (process_document env st))) = pf
      \<and> html_content (document (snd (process_document env st))) = hc
      \<and> html_file (document (snd (process_document env st))) = hf
      \<and> logs (snd (process_document env st)) =
          logs st @ [\<lparr>action = ''start'', message = ''Starting document conversion''\<rparr>]
            @ plog @ hlog @ [\<lparr>action = ''error'', message = ''Processing failed: ''
                     @ error_message (document (snd (process_document env st)))\<rparr>]
      \<and> status (document (snd (process_document env st))) = ''failed''"
      by (simp add: create_log_def save_def w s)
    with pcase' hcase' show ?thesis by blast
  qed
qed

subsection \<open>The example runs\<close>

lemmas pipeline_defs = process_document_def started_def try_body_def with_temp_dir_def pdf_step_def
  html_step_def pdf_conversion_def html_conversion_def save_def create_log_def
  convert_docx_to_pdf_def convert_pptx_to_pdf_def
  is_docx_def source_extension_def splitext_def basename_def
  path_join_def truthy_def upload_to_pdf_output_def lower_def char_lower_def
  convert_docx_to_html_def title_paragraph_html docx_head_def align_classes_def class_attr_def

lemmas example_defs = uploaded_def new_document_def env_ok_def env_pdf_fails_def
  env_html_fails_def env_pdf_fails_silently_def env_disk_full_def

lemma run_ok:
  "status (document (snd (process_document env_ok uploaded))) = ''completed''
   \<and> pdf_file (document (snd (process_document env_ok uploaded))) = Some ''pdf/output/report.pdf''
   \<and> html_file (document (snd (process_document env_ok uploaded))) = Some ''pdf/output/report.html''
   \<and> html_content (document (snd (process_document env_ok uploaded))) \<noteq> []"
  by (simp add: pipeline_defs example_defs)

lemma run_pdf_fails:
  "status (document (snd (process_document env_pdf_fails uploaded))) = ''completed''
   \<and> pdf_file (document (snd (process_document env_pdf_fails uploaded))) = None
   \<and> html_content (document (snd (process_document env_pdf_fails uploaded))) \<noteq> []
   \<and> map action (run_logs env_pdf_fails uploaded) = [''start'', ''pdf_error'', ''html_success'', ''complete'']"
  by (simp add: run_logs_def pipeline_defs example_defs)

lemma run_html_fails:
  "status (document (snd (process_document env_html_fails uploaded))) = ''completed''
   \<and> pdf_file (document (snd (process_document env_html_fails uploaded))) = Some ''pdf/output/report.pdf''
   \<and> html_content (document (snd (process_document env_html_fails uploaded))) = []
   \<and> html_file (document (snd (process_document env_html_fails uploaded))) = None
   \<and> map action (run_logs env_html_fails uploaded) = [''start'', ''pdf_success'', ''html_error'', ''complete'']"
  by (simp add: run_logs_def pipeline_defs example_defs)

lemma run_disk_full:
  "status (document (snd (process_document env_disk_full uploaded))) = ''failed''
   \<and> pdf_file (document (snd (process_document env_disk_full uploaded))) = Some ''pdf/output/report.pdf''
   \<and> error_message (document (snd (process_document env_disk_full uploaded))) = ''[Errno 28] No space left on device''
   \<and> map action (run_logs env_disk_full uploaded) = [''start'', ''pdf_success'', ''error'']"
  by (simp add: run_logs_def pipeline_defs example_defs)

text \<open>The rows of one run: "start", then rows of the conversion actions, then one
  terminal row.\<close>

lemma run_logs_shape:
  "\<exists>mid t. run_logs env st =
       \<lparr>action = ''start'', message = ''Starting document conversion''\<rparr> # mid @ [t]
     \<and> set (map action mid) \<subseteq> {''pdf_success'', ''pdf_error'', ''html_success'', ''html_error''}
     \<and> action t \<in> {''complete'', ''error''}"
proof -
  from process_document_shape [of env st] obtain pf plog hc hf hlog t where
    l: "logs (snd (process_document env st)) =
          logs st @ [\<lparr>action = ''start'', message = ''Starting document conversion''\<rparr>]
            @ plog @ hlog @ [t]"
    and p: "plog = []
         \<or> plog = [\<lparr>action = ''pdf_success'', message = ''PDF conversion successful''\<rparr>]
         \<or> (\<exists>m. plog = [\<lparr>action = ''pdf_error'', message = m\<rparr>])"
    and h: "hlog = []
         \<or> hlog = [\<lparr>action = ''html_success'', message = ''HTML conversion successful''\<rparr>]
         \<or> (\<exists>m. hlog = [\<lparr>action = ''html_error'', message = m\<rparr>])"
    and t: "t = \<lparr>action = ''complete'', message = ''Document processing completed''\<rparr>
         \<or> t = \<lparr>action = ''error'', message = ''Processing failed: ''
                     @ error_message (document (snd (process_document env st)))\<rparr>"
    by blast
  from l have "run_logs env st =
      \<lparr>action = ''start'', message = ''Starting document conversion''\<rparr> # (plog @ hlog) @ [t]"
    by (simp add: run_logs_def)
  moreover from p h have "set (map action (plog @ hlog))
      \<subseteq> {''pdf_success'', ''pdf_error'', ''html_success'', ''html_error''}"
    by auto
  moreover from t have "action t \<in> {''complete'', ''error''}" by auto
  ultimately show ?thesis by blast
qed

lemma reprocess_after_disk_full:
  "status (document (reprocess_document env_pdf_fails (snd (process_document env_disk_full uploaded)))) = ''completed''
   \<and> pdf_file (document (reprocess_document env_pdf_fails (snd (process_document env_disk_full uploaded))))
       = Some ''pdf/output/report.pdf''
   \<and> error_message (document (reprocess_document env_pdf_fails (snd (process_document env_disk_full uploaded))))
       = ''[Errno 28] No space left on device''
   \<and> map action (drop 3 (logs (reprocess_document env_pdf_fails (snd (process_document env_disk_full uploaded)))))
       = [''start'', ''pdf_error'', ''html_success'', ''complete'']"
  by (simp add: reprocess_document_def pipeline_defs example_defs)

subsection \<open>Terminal status\<close>

text \<open>
  Claim C1. Whatever the environment answers, a run of \<open>process_document\<close> ends with
  the status "completed" or "failed", saved in the row, and returns true exactly for
  "completed". The status is "failed" exactly when an exception leaves the body of
  \<open>try\<close>. When no call of the body raises (the source path, the temporary directory,
  reading and storing the files, removing the directory), the status is "completed"
  whatever the converter process and the parsers report, so a failure of the PDF path or
  of the HTML path alone never gives "failed". "completed" occurs with an empty PDF
  field, with an empty HTML field, and with both filled.
\<close>

theorem process_document_terminal:
  "status (document (snd (process_document env st))) \<in> {''completed'', ''failed''}
   \<and> row (snd (process_document env st)) = document (snd (process_document env st))
   \<and> fst (process_document env st) = (status (document (snd (process_document env st))) = ''completed'')
   \<and> (status (document (snd (process_document env st))) = ''failed'')
       = (\<exists>e. fst (try_body env (started st)) = Some e)
   \<and> ((\<exists>p. source_file_path env = Inr p) \<and> (\<exists>d. make_temp_dir env = Inr d)
        \<and> (\<exists>c. read_pdf env = Inr c) \<and> (\<forall>n c. \<exists>s. storage_save env n c = Inr s)
        \<and> remove_temp_dir env = None
       \<longrightarrow> status (document (snd (process_document env st))) = ''completed'')
   \<and> (status (document (snd (process_document env_pdf_fails uploaded))) = ''completed''
        \<and> pdf_file (document (snd (process_document env_pdf_fails uploaded))) = None)
   \<and> (status (document (snd (process_document env_html_fails uploaded))) = ''completed''
        \<and> html_content (document (snd (process_document env_html_fails uploaded))) = []
        \<and> html_file (document (snd (process_document env_html_fails uploaded))) = None)
   \<and> (status (document (snd (process_document env_ok uploaded))) = ''completed''
        \<and> pdf_file (document (snd (process_document env_ok uploaded))) \<noteq> None
        \<and> html_content (document (snd (process_document env_ok uploaded))) \<noteq> [])"
proof -
  let ?status = "status (document (snd (process_document env st)))"
  have st: "?status = (if fst (try_body env (started st)) = None then ''completed'' else ''failed'')"
    by (rule process_document_status)
  have a: "?status \<in> {''completed'', ''failed''}" by (simp add: st)
  have b: "fst (process_document env st) = (?status = ''completed'')"
    by (simp add: st process_document_returns)
  have c: "(?status = ''failed'') = (\<exists>e. fst (try_body env (started st)) = Some e)"
    by (simp add: st)
  have d: "?status = ''completed''"
    if "(\<exists>p. source_file_path env = Inr p) \<and> (\<exists>d. make_temp_dir env = Inr d)
        \<and> (\<exists>c. read_pdf env = Inr c) \<and> (\<forall>n c. \<exists>s. storage_save env n c = Inr s)
        \<and> remove_temp_dir env = None"
  proof -
    from that have "fst (try_body env (started st)) = None"
      by (intro try_body_returns) blast+
    then show ?thesis by (simp add: st)
  qed
  from a b c d process_document_saved [of env st] run_pdf_fails run_html_fails run_ok
  show ?thesis by simp
qed

theorem process_document_terminal_witness:
  "(\<exists>p. source_file_path env_pdf_fails = Inr p) \<and> (\<exists>d. make_temp_dir env_pdf_fails = Inr d)
   \<and> (\<exists>c. read_pdf env_pdf_fails = Inr c) \<and> (\<forall>n c. \<exists>s. storage_save env_pdf_fails n c = Inr s)
   \<and> remove_temp_dir env_pdf_fails = None
   \<and> fst (pdf_conversion env_pdf_fails (document uploaded)
            ''/srv/media/pdf/source/report.docx'' ''/tmp/tmpk3v9x2ab'') = None
   \<and> status (document (snd (process_document env_pdf_fails uploaded))) = ''completed''"
proof -
  have h: "(\<exists>p. source_file_path env_pdf_fails = Inr p) \<and> (\<exists>d. make_temp_dir env_pdf_fails = Inr d)
   \<and> (\<exists>c. read_pdf env_pdf_fails = Inr c) \<and> (\<forall>n c. \<exists>s. storage_save env_pdf_fails n c = Inr s)
   \<and> remove_temp_dir env_pdf_fails = None"
    by (simp add: env_pdf_fails_def env_ok_def)
  have f: "fst (pdf_conversion env_pdf_fails (document uploaded)
            ''/srv/media/pdf/source/report.docx'' ''/tmp/tmpk3v9x2ab'') = None"
    by (simp add: pipeline_defs example_defs)
  from process_document_terminal [of env_pdf_fails uploaded] h f show ?thesis by blast
qed

subsection \<open>Fields a run leaves alone\<close>

text \<open>
  Claim C9. A run changes \<open>pdf_file\<close> only when it logs "pdf_success" and \<open>html_file\<close>
  only when it logs "html_success"; \<open>html_content\<close> changes only to the HTML the
  converter returned. None of the three is ever emptied, and \<open>error_message\<close> is
  assigned only by a run that ends "failed" (the handler stores the text of the
  exception). A run that logs "pdf_error" leaves \<open>pdf_file\<close> as it was, one that logs
  "html_error" leaves both HTML fields as they were. So after a first run that stored the
  PDF and then failed, a reprocessing run whose converter fails ends "completed" with a
  fresh "pdf_error" row, the PDF of the first run still attached and the error message
  of the first run still in place.
\<close>

theorem process_document_keeps_artifacts:
  fixes env st
  defines "doc \<equiv> document st" and "doc' \<equiv> document (snd (process_document env st))"
    and "actions \<equiv> set (map action (run_logs env st))"
  shows "(pdf_file doc' \<noteq> pdf_file doc \<longrightarrow> ''pdf_success'' \<in> actions)
     \<and> (html_file doc' \<noteq> html_file doc \<longrightarrow> ''html_success'' \<in> actions)
     \<and> (html_content doc' \<noteq> html_content doc \<longrightarrow>
           fst (html_conversion env doc) = Some (html_content doc'))
     \<and> (pdf_file doc \<noteq> None \<longrightarrow> pdf_file doc' \<noteq> None)
     \<and> (html_file doc \<noteq> None \<longrightarrow> html_file doc' \<noteq> None)
     \<and> (html_content doc \<noteq> [] \<longrightarrow> html_content doc' \<noteq> [])
     \<and> (error_message doc' \<noteq> error_message doc \<longrightarrow> status doc' = ''failed'')
     \<and> (''pdf_error'' \<in> actions \<longrightarrow> pdf_file doc' = pdf_file doc)
     \<and> (''html_error'' \<in> actions \<longrightarrow>
           html_content doc' = html_content doc \<and> html_file doc' = html_file doc)
     \<and> status (document (reprocess_document env_pdf_fails (snd (process_document env_disk_full uploaded))))
           = ''completed''
     \<and> pdf_file (document (reprocess_document env_pdf_fails (snd (process_document env_disk_full uploaded))))
           = Some ''pdf/output/report.pdf''
     \<and> error_message (document (reprocess_document env_pdf_fails (snd (process_document env_disk_full uploaded))))
           = ''[Errno 28] No space left on device''
     \<and> map action (drop 3 (logs (reprocess_document env_pdf_fails (snd (process_document env_disk_full uploaded)))))
           = [''start'', ''pdf_error'', ''html_success'', ''complete'']"
proof -
  from process_document_shape [of env st] obtain pf plog hc hf hlog t where
    f: "pdf_file doc' = pf" "html_content doc' = hc" "html_file doc' = hf"
    and l: "logs (snd (process_document env st)) =
          logs st @ [\<lparr>action = ''start'', message = ''Starting document conversion''\<rparr>]
            @ plog @ hlog @ [t]"
    and p: "(pf = pdf_file doc \<and> plog = [])
         \<or> (\<exists>s. pf = Some s \<and> plog = [\<lparr>action = ''pdf_success'', message = ''PDF conversion successful''\<rparr>])
         \<or> (\<exists>m. pf = pdf_file doc \<and> plog = [\<lparr>action = ''pdf_error'', message = m\<rparr>])"
    and h: "(hc = html_content doc \<and> hf = html_file doc \<and> hlog = [])
         \<or> (hc \<noteq> [] \<and> fst (html_conversion env doc) = Some hc
              \<and> hf = html_file doc \<and> hlog = [])
         \<or> (\<exists>s. hc \<noteq> [] \<and> fst (html_conversion env doc) = Some hc \<and> hf = Some s
              \<and> hlog = [\<lparr>action = ''html_success'', message = ''HTML conversion successful''\<rparr>])
         \<or> (\<exists>m. hc = html_content doc \<and> hf = html_file doc
              \<and> hlog = [\<lparr>action = ''html_error'', message = m\<rparr>])"
    and t: "(status doc' = ''completed'' \<and> error_message doc' = error_message doc
          \<and> t = \<lparr>action = ''complete'', message = ''Document processing completed''\<rparr>)
         \<or> (status doc' = ''failed''
          \<and> t = \<lparr>action = ''error'', message = ''Processing failed: '' @ error_message doc'\<rparr>)"
    unfolding doc_def doc'_def by blast
  from l have acts: "actions = insert ''start'' (set (map action plog) \<union> set (map action hlog)
      \<union> {action t})"
    by (simp add: actions_def run_logs_def)
  from t have ta: "action t = ''complete'' \<or> action t = ''error''" by auto
  have 1: "pdf_file doc' \<noteq> pdf_file doc \<longrightarrow> ''pdf_success'' \<in> actions"
    using p f acts by auto
  have 2: "html_file doc' \<noteq> html_file doc \<longrightarrow> ''html_success'' \<in> actions"
    using h f acts by auto
  have 3: "html_content doc' \<noteq> html_content doc \<longrightarrow>
           fst (html_conversion env doc) = Some (html_content doc')"
    using h f by auto
  have 4: "pdf_file doc \<noteq> None \<longrightarrow> pdf_file doc' \<noteq> None"
    using p f by auto
  have 5: "html_file doc \<noteq> None \<longrightarrow> html_file doc' \<noteq> None"
    using h f by auto
  have 6: "html_content doc \<noteq> [] \<longrightarrow> html_content doc' \<noteq> []"
    using h f by auto
  have 7: "error_message doc' \<noteq> error_message doc \<longrightarrow> status doc' = ''failed''"
    using t by auto
  have 8: "''pdf_error'' \<in> actions \<longrightarrow> pdf_file doc' = pdf_file doc"
    using p h ta f acts by auto
  have 9: "''html_error'' \<in> actions \<longrightarrow>
           html_content doc' = html_content doc \<and> html_file doc' = html_file doc"
    using p h ta f acts by auto
  from 1 2 3 4 5 6 7 8 9 reprocess_after_disk_full show ?thesis by blast
qed

theorem process_document_keeps_artifacts_witness:
  "pdf_file (row (snd (process_document env_disk_full uploaded))) \<noteq> None
   \<and> ''pdf_error'' \<in> set (map action (run_logs env_pdf_fails
         ((snd (process_document env_disk_full uploaded))
            \<lparr>document := row (snd (process_document env_disk_full uploaded))\<rparr>)))
   \<and> pdf_file (document (reprocess_document env_pdf_fails (snd (process_document env_disk_full uploaded))))
       = pdf_file (row (snd (process_document env_disk_full uploaded)))
   \<and> pdf_file (document (snd (process_document env_ok uploaded))) \<noteq> pdf_file (document uploaded)
   \<and> ''pdf_success'' \<in> set (map action (run_logs env_ok uploaded))
   \<and> error_message (document (snd (process_document env_disk_full uploaded)))
       \<noteq> error_message (document uploaded)
   \<and> status (document (snd (process_document env_disk_full uploaded))) = ''failed''"
proof -
  define s1 where "s1 = snd (process_document env_disk_full uploaded)"
  define s1r where "s1r = s1\<lparr>document := row s1\<rparr>"
  have a: "pdf_file (document s1r) \<noteq> None"
    using run_disk_full by (simp add: s1r_def s1_def process_document_saved)
  have b: "''pdf_error'' \<in> set (map action (run_logs env_pdf_fails s1r))"
    unfolding s1r_def s1_def by (simp add: run_logs_def pipeline_defs example_defs)
  have c: "pdf_file (document (snd (process_document env_ok uploaded))) \<noteq> pdf_file (document uploaded)"
    using run_ok by (simp add: uploaded_def new_document_def)
  have d: "error_message (document s1) \<noteq> error_message (document uploaded)"
    using run_disk_full by (simp add: s1_def uploaded_def new_document_def)
  from process_document_keeps_artifacts [of env_pdf_fails s1r] b
  have e: "pdf_file (document (snd (process_document env_pdf_fails s1r))) = pdf_file (document s1r)"
    by blast
  from process_document_keeps_artifacts [of env_ok uploaded] c
  have f: "''pdf_success'' \<in> set (map action (run_logs env_ok uploaded))"
    by blast
  from process_document_keeps_artifacts [of env_disk_full uploaded] d
  have g: "status (document s1) = ''failed''"
    unfolding s1_def by blast
  have r: "reprocess_document env_pdf_fails s1 = snd (process_document env_pdf_fails s1r)"
    by (simp add: reprocess_document_def s1r_def)
  have dr: "document s1r = row s1" by (simp add: s1r_def)
  from a b c d e f g show ?thesis
    unfolding r [symmetric] dr unfolding s1r_def s1_def by blast
qed

subsection \<open>A conversion failure that leaves no row\<close>

text \<open>
  Claim C5 says that every failure of a conversion path leaves a \<open>ConversionLog\<close> row.
  Every run does append the "start" row and exactly one terminal row
  (\<open>run_logs_shape\<close>), but the rows "pdf_error" and "html_error" are written only when
  the error text is not empty. When the converter process ends with a non-zero return
  code and an empty stderr, \<open>convert_docx_to_pdf\<close> returns no path and the empty
  text; the run then attaches no PDF, logs nothing about the PDF path and ends
  "completed".
\<close>

theorem pdf_failure_without_log:
  "pdf_conversion env_pdf_fails_silently (document uploaded)
      ''/srv/media/pdf/source/report.docx'' ''/tmp/tmpk3v9x2ab'' = (None, Some [])
   \<and> status (document (snd (process_document env_pdf_fails_silently uploaded))) = ''completed''
   \<and> pdf_file (document (snd (process_document env_pdf_fails_silently uploaded))) = None
   \<and> map action (run_logs env_pdf_fails_silently uploaded) = [''start'', ''html_success'', ''complete'']"
  by (simp add: run_logs_def pipeline_defs example_defs)

section \<open>Login\<close>

subsection \<open>The form and the example requests\<close>

lemma authenticate_email:
  "authenticate env table username password = Some user \<Longrightarrow> email user = username"
  by (auto simp: authenticate_def find_Some_iff split: option.splits if_splits)

lemma form_user_email:
  assumes "form_user env st request = Some user"
  shows "\<exists>raw. post_username request = Some raw \<and> email user = strip raw"
proof -
  from assms obtain username where u: "clean_username env request = Some username"
    by (auto simp: form_user_def split: option.splits)
  with assms have "email user = username"
    by (auto simp: form_user_def split: option.splits dest: authenticate_email)
  moreover from u obtain raw where "post_username request = Some raw" "username = strip raw"
    by (auto simp: clean_username_def clean_required_def split: option.splits if_splits)
  ultimately show ?thesis by blast
qed

lemma strip_example: "strip '' officer@example.org'' = ''officer@example.org''"
  by (simp add: strip_def py_isspace_def)

lemma form_user_padded: "form_user example_env anonymous padded_login = Some account1"
  by (simp add: form_user_def clean_username_def clean_required_def strip_example
      padded_login_def example_env_def anonymous_def authenticate_def account1_def account0_def
      account2_def strip_def py_isspace_def)

lemma check_token_user:
  assumes "check_token now r st = Inr (valid, user)"
  shows "mfa_user_id (session st) = Some (user_id user)"
proof -
  from assms obtain uid where uid: "mfa_user_id (session st) = Some uid"
    by (auto simp: check_token_def split: option.splits)
  with assms obtain tok where tok: "clean_token r = Some tok"
    by (auto simp: check_token_def split: option.splits)
  with assms uid obtain u where u: "find (\<lambda>u. user_id u = uid) (users st) = Some u"
    by (auto simp: check_token_def split: option.splits)
  then have "user_id u = uid" by (auto simp: find_Some_iff)
  moreover have "user_id (fst (verify_backup_code u tok)) = user_id u"
    by (simp add: verify_backup_code_def Let_def)
  moreover from assms uid tok u have "user = u \<or> user = fst (verify_backup_code u tok)"
    by (auto simp: check_token_def split: if_splits sum.splits)
  ultimately show ?thesis using uid by auto
qed

lemma mfa_post_fails:
  "\<not> mfa_succeeds now r st \<Longrightarrow> snd (MFAVerifyView_post now r st) = st"
  by (auto simp: mfa_succeeds_def MFAVerifyView_post_def split: sum.splits)

lemma mfa_posts_fail:
  "\<forall>(now, r)\<in>set posts. \<not> mfa_succeeds now r st \<Longrightarrow> mfa_posts posts st = st"
  by (induction posts) (auto simp: mfa_post_fails)

lemma login_auth: "auth_user_id (login s user) = Some (user_id user)"
  by (simp add: login_def Let_def)

lemma mfa_post_succeeds:
  assumes "mfa_succeeds now r st" and "mfa_user_id (session st) = Some uid"
  shows "auth_user_id (session (snd (MFAVerifyView_post now r st))) = Some uid"
    and "mfa_user_id (session (snd (MFAVerifyView_post now r st))) = None"
    and "mfa_remember_me (session (snd (MFAVerifyView_post now r st))) = None"
    and "mfa_remember_me (session st) \<noteq> Some True \<longrightarrow>
           session_expiry (session (snd (MFAVerifyView_post now r st))) = Some 0"
proof -
  from assms(1) obtain user where c: "check_token now r st = Inr (True, user)"
    by (auto simp: mfa_succeeds_def split: sum.splits)
  from check_token_user [OF c] assms(2) have id: "user_id user = uid" by simp
  let ?st1 = "if post_use_backup_code r then st\<lparr>users := save_user user (users st)\<rparr> else st"
  have s: "session ?st1 = session st" by simp
  show "auth_user_id (session (snd (MFAVerifyView_post now r st))) = Some uid"
    using c id by (simp add: MFAVerifyView_post_def Let_def login_auth)
  show "mfa_user_id (session (snd (MFAVerifyView_post now r st))) = None"
    using c by (simp add: MFAVerifyView_post_def Let_def login_def empty_session_def)
  show "mfa_remember_me (session (snd (MFAVerifyView_post now r st))) = None"
    using c by (simp add: MFAVerifyView_post_def Let_def login_def empty_session_def)
  show "mfa_remember_me (session st) \<noteq> Some True \<longrightarrow>
           session_expiry (session (snd (MFAVerifyView_post now r st))) = Some 0"
    using c by (auto simp: MFAVerifyView_post_def Let_def split: option.splits)
qed

lemma verify_right_code: "verify_mfa_token 1762399260 account1 ''398157'' = Inr True"
proof -
  have s: "mfa_secret account1 = ''JBSWY3DPEHPK3PXP''" by (simp add: account1_def account0_def)
  have t: "timecode 1762399260 = 58746642" by (simp add: timecode_def)
  have "totp_at ''JBSWY3DPEHPK3PXP'' 1762399260 (- 1) = Inr ''398157''"
    by (simp only: totp_at_def t) (simp add: code_k)
  then show ?thesis
    by (simp add: verify_mfa_token_def s totp_verify_def window_offsets)
qed

lemma pending_example:
  "snd (LoginView_post example_env padded_login anonymous) =
     anonymous\<lparr>login_attempts := [\<lparr>la_email = ''officer@example.org'',
         la_ip_address = ''203.0.113.7'', la_user_agent = ''Mozilla/5.0'', la_successful = True\<rparr>],
       session := empty_session\<lparr>mfa_user_id := Some 1, mfa_remember_me := Some False\<rparr>\<rparr>"
  by (simp add: LoginView_post_def form_user_padded create_login_attempt_def Let_def
      get_client_ip_def truthy_def)
    (simp add: padded_login_def anonymous_def account1_def account0_def)

lemma form_user_plain: "form_user example_env anonymous plain_login = Some account2"
  by (simp add: form_user_def clean_username_def clean_required_def
      plain_login_def padded_login_def example_env_def anonymous_def authenticate_def
      account1_def account0_def account2_def strip_def py_isspace_def)

lemma wrong_code_fails:
  "\<not> mfa_succeeds 1762399260 wrong_code (snd (LoginView_post example_env padded_login anonymous))"
  unfolding pending_example
  by (simp add: mfa_succeeds_def check_token_def clean_token_def clean_required_def
      wrong_code_def anonymous_def empty_session_def strip_def py_isspace_def
      account1_def account0_def verify_backup_code_def upper_def char_upper_def)

lemma right_code_succeeds:
  "mfa_succeeds 1762399260 right_code (snd (LoginView_post example_env padded_login anonymous))"
proof -
  have "user_id account1 = 1" by (simp add: account1_def account0_def)
  then have "find (\<lambda>u. user_id u = 1) [account1, account2] = Some account1"
    by simp
  then show ?thesis
    unfolding pending_example
    by (simp add: mfa_succeeds_def check_token_def clean_token_def clean_required_def
      right_code_def anonymous_def empty_session_def strip_def py_isspace_def verify_right_code)
qed

subsection \<open>The audit record\<close>

text \<open>
  Claim C2, as the code has it. Every login submission appends exactly one
  \<open>LoginAttempt\<close>. When the form is valid the record has \<open>successful\<close> set and carries
  the e-mail of the authenticated account, which is the posted user name with surrounding
  whitespace stripped (the cleaned value the account was looked up with). When the form
  is not valid the record has \<open>successful\<close> unset and carries the posted user name as it
  was submitted, the empty string when the field is absent.
\<close>

theorem login_attempt_recorded:
  "\<exists>a. login_attempts (snd (LoginView_post env request st)) = login_attempts st @ [a]
      \<and> la_successful a = (form_user env st request \<noteq> None)
      \<and> (\<forall>user. form_user env st request = Some user \<longrightarrow>
            la_email a = email user
            \<and> (\<exists>raw. post_username request = Some raw \<and> la_email a = strip raw))
      \<and> (form_user env st request = None \<longrightarrow>
            la_email a = (case post_username request of None \<Rightarrow> [] | Some v \<Rightarrow> v))"
proof (cases "form_user env st request")
  case None
  then show ?thesis
    by (simp add: LoginView_post_def create_login_attempt_def Let_def)
next
  case (Some user)
  from form_user_email [OF Some] obtain raw where
    "post_username request = Some raw" "email user = strip raw" by blast
  with Some show ?thesis
    by (simp add: LoginView_post_def create_login_attempt_def Let_def)
qed

theorem login_attempt_recorded_witness:
  "form_user example_env anonymous padded_login = Some account1
   \<and> form_user example_env anonymous wrong_password = None
   \<and> (\<exists>a. login_attempts (snd (LoginView_post example_env padded_login anonymous)) = [a]
        \<and> la_successful a \<and> la_email a = email account1
        \<and> la_email a = strip '' officer@example.org'')
   \<and> (\<exists>a. login_attempts (snd (LoginView_post example_env wrong_password anonymous)) = [a]
        \<and> \<not> la_successful a \<and> la_email a = ''clerk@example.org'')"
proof -
  have w: "form_user example_env anonymous wrong_password = None"
    by (simp add: form_user_def clean_username_def clean_required_def
      wrong_password_def plain_login_def padded_login_def example_env_def anonymous_def
      authenticate_def account1_def account0_def account2_def strip_def py_isspace_def)
  have u: "post_username padded_login = Some '' officer@example.org''"
    "post_username wrong_password = Some ''clerk@example.org''"
    by (simp_all add: wrong_password_def plain_login_def padded_login_def)
  have l: "login_attempts anonymous = []" by (simp add: anonymous_def)
  from login_attempt_recorded [of example_env padded_login anonymous]
    login_attempt_recorded [of example_env wrong_password anonymous]
  show ?thesis
    by (simp add: form_user_padded w u l)
qed

text \<open>
  The successful record does not always carry the submitted string: a user name posted
  with a leading blank logs in, and the record holds the account's e-mail without the
  blank.
\<close>

theorem padded_login_counterexample:
  "post_username padded_login = Some '' officer@example.org''
   \<and> login_attempts (snd (LoginView_post example_env padded_login anonymous))
       = [\<lparr>la_email = ''officer@example.org'', la_ip_address = ''203.0.113.7'',
           la_user_agent = ''Mozilla/5.0'', la_successful = True\<rparr>]"
  by (simp add: LoginView_post_def form_user_padded create_login_attempt_def Let_def
      get_client_ip_def truthy_def)
    (simp add: padded_login_def anonymous_def account1_def account0_def)

subsection \<open>Sessions with and without MFA\<close>

text \<open>
  Claim C6. Let the credentials of a login submission verify for \<open>user\<close>. If the user
  has MFA disabled, the handler leaves the session authenticated as that user. If the
  user has MFA enabled, the handler only stores the user's identifier and the "remember
  me" flag in the pending keys of the session and leaves the authenticated user of the
  session as it was; any sequence of MFA submissions that all fail the check leaves it
  so, with the login still pending; and an MFA submission that passes the check
  authenticates the session as that user, clears both pending keys, and lets the session
  expire with the browser when "remember me" was not set.
\<close>

theorem login_then_mfa:
  fixes env request st
  defines "st1 \<equiv> snd (LoginView_post env request st)"
  assumes valid: "form_user env st request = Some user"
  shows "(\<not> mfa_enabled user \<longrightarrow> auth_user_id (session st1) = Some (user_id user))
     \<and> (mfa_enabled user \<longrightarrow>
           session st1 = (session st)\<lparr>mfa_user_id := Some (user_id user),
                            mfa_remember_me := Some (post_remember_me request)\<rparr>)
     \<and> (mfa_enabled user \<and> (\<forall>(now, r)\<in>set posts. \<not> mfa_succeeds now r st1) \<longrightarrow>
           auth_user_id (session (mfa_posts posts st1)) = auth_user_id (session st)
           \<and> mfa_user_id (session (mfa_posts posts st1)) = Some (user_id user))
     \<and> (mfa_enabled user \<and> mfa_succeeds now r st1 \<longrightarrow>
           auth_user_id (session (snd (MFAVerifyView_post now r st1))) = Some (user_id user)
           \<and> mfa_user_id (session (snd (MFAVerifyView_post now r st1))) = None
           \<and> mfa_remember_me (session (snd (MFAVerifyView_post now r st1))) = None
           \<and> (\<not> post_remember_me request \<longrightarrow>
                 session_expiry (session (snd (MFAVerifyView_post now r st1))) = Some 0))"
proof -
  have direct: "auth_user_id (session st1) = Some (user_id user)" if "\<not> mfa_enabled user"
    using that valid
    by (simp add: st1_def LoginView_post_def Let_def create_login_attempt_def login_auth)
  have pending: "session st1 = (session st)\<lparr>mfa_user_id := Some (user_id user),
                            mfa_remember_me := Some (post_remember_me request)\<rparr>"
    if "mfa_enabled user"
    using that valid
    by (simp add: st1_def LoginView_post_def Let_def create_login_attempt_def)
  have waiting: "auth_user_id (session (mfa_posts posts st1)) = auth_user_id (session st)
           \<and> mfa_user_id (session (mfa_posts posts st1)) = Some (user_id user)"
    if "mfa_enabled user" and "\<forall>(now, r)\<in>set posts. \<not> mfa_succeeds now r st1"
    using that by (simp add: mfa_posts_fail pending)
  have verified: "auth_user_id (session (snd (MFAVerifyView_post now r st1))) = Some (user_id user)
           \<and> mfa_user_id (session (snd (MFAVerifyView_post now r st1))) = None
           \<and> mfa_remember_me (session (snd (MFAVerifyView_post now r st1))) = None
           \<and> (\<not> post_remember_me request \<longrightarrow>
                 session_expiry (session (snd (MFAVerifyView_post now r st1))) = Some 0)"
    if "mfa_enabled user" and ok: "mfa_succeeds now r st1"
  proof -
    from that(1) have p: "mfa_user_id (session st1) = Some (user_id user)"
      "mfa_remember_me (session st1) = Some (post_remember_me request)"
      by (simp_all add: pending)
    from mfa_post_succeeds [OF ok p(1)] p(2) show ?thesis by simp
  qed
  from direct pending waiting verified show ?thesis by blast
qed
theorem login_then_mfa_witness:
  "form_user example_env anonymous padded_login = Some account1 \<and> mfa_enabled account1
   \<and> form_user example_env anonymous plain_login = Some account2 \<and> \<not> mfa_enabled account2
   \<and> auth_user_id (session (snd (LoginView_post example_env plain_login anonymous))) = Some 2
   \<and> auth_user_id (session (snd (LoginView_post example_env padded_login anonymous))) = None
   \<and> mfa_user_id (session (snd (LoginView_post example_env padded_login anonymous))) = Some 1
   \<and> \<not> mfa_succeeds 1762399260 wrong_code (snd (LoginView_post example_env padded_login anonymous))
   \<and> auth_user_id (session (mfa_posts [(1762399260, wrong_code)]
         (snd (LoginView_post example_env padded_login anonymous)))) = None
   \<and> mfa_succeeds 1762399260 right_code (snd (LoginView_post example_env padded_login anonymous))
   \<and> auth_user_id (session (snd (MFAVerifyView_post 1762399260 right_code
         (snd (LoginView_post example_env padded_login anonymous))))) = Some 1
   \<and> session_expiry (session (snd (MFAVerifyView_post 1762399260 right_code
         (snd (LoginView_post example_env padded_login anonymous))))) = Some 0"
proof -
  have m: "mfa_enabled account1" "\<not> mfa_enabled account2" "user_id account1 = 1"
    "user_id account2 = 2" "\<not> post_remember_me padded_login"
    "auth_user_id (session anonymous) = None"
    by (simp_all add: account1_def account0_def account2_def padded_login_def anonymous_def
        empty_session_def)
  have posts: "\<forall>(now, r)\<in>set [(1762399260, wrong_code)].
      \<not> mfa_succeeds now r (snd (LoginView_post example_env padded_login anonymous))"
    using wrong_code_fails by simp
  from login_then_mfa [OF form_user_padded, of "[(1762399260, wrong_code)]" 1762399260 right_code]
    login_then_mfa [OF form_user_plain, of "[]" 0 wrong_code]
    m posts wrong_code_fails right_code_succeeds form_user_padded form_user_plain
  show ?thesis by simp
qed

end
